theory Spec2Isabelle
  imports Complex_Main "HOL-Library.AList"
begin

section \<open>Event-locked time courses: a model of \<open>timecourse.py\<close>\<close>

text \<open>
  The development follows \<open>src/timecourse.py\<close>: the relative-time grid and the epoch
  extraction of \<open>Epochs.__init__\<close>, baseline correction (\<open>create_base_corr_func\<close>,
  \<open>apply_baseline\<close>), selection (\<open>pick\<close>, \<open>_partial_match_event\<close>, \<open>drop_events\<close>),
  \<open>concatinate_epochs\<close> and \<open>read_events\<close>.

  Numbers are exact: a NumPy float is a \<^typ>\<open>real\<close>, and a float that may be
  not-a-number is a \<^typ>\<open>real option\<close> with \<^term>\<open>None\<close> for NaN. Rounding is
  not modelled. Every Python exception is a value of the type \<open>error\<close>.
\<close>

subsection \<open>NumPy: floats, ranges and indexing\<close>

datatype error = IndexError | ValueError | ZeroDivisionError | TypeError

type_synonym npfloat = "real option"

text \<open>\<open>a - b\<close> on floats: NaN on either side gives NaN.\<close>

definition nan_minus :: "npfloat \<Rightarrow> npfloat \<Rightarrow> npfloat" where
  "nan_minus a b = (case a of None \<Rightarrow> None | Some x \<Rightarrow> (case b of None \<Rightarrow> None | Some y \<Rightarrow> Some (x - y)))"

text \<open>
  \<open>np.nanmean\<close> along one axis: the mean of the entries that are not NaN, and NaN when
  there is none (an empty or all-NaN slice).
\<close>

definition not_nan :: "npfloat list \<Rightarrow> real list" where
  "not_nan xs = map the (filter (\<lambda>v. v \<noteq> None) xs)"

definition nanmean :: "npfloat list \<Rightarrow> npfloat" where
  "nanmean xs =
     (let ys = not_nan xs
      in if ys = [] then None else Some (sum_list ys / real (length ys)))"

text \<open>
  \<open>np.arange(start, stop, step)\<close> for a step other than zero: \<open>ceil((stop - start) / step)\<close>
  samples \<open>start + i * step\<close>, none when that count is not positive. The only caller,
  \<open>Epochs.__init__\<close>, has already raised on \<open>1 / dt\<close> when the step is zero.

  This is the range in exact arithmetic. NumPy computes the count and the samples in
  64-bit floats, where a quotient that is a whole number exactly may round to just
  above it and give one sample more, equal to the rounded stop: for \<open>start = 0\<close>,
  \<open>stop = 0.55 + 0.1 / 2\<close> and \<open>step = 0.1\<close> the floats give \<open>stop = 0.6000000000000001\<close>,
  a quotient \<open>6.000000000000001\<close> and seven samples, the last one the stop itself,
  where the definition gives six. What is proved of the bounds of a range below is
  proved of the exact range.
\<close>

definition arange :: "real \<Rightarrow> real \<Rightarrow> real \<Rightarrow> real list" where
  "arange start stop step =
     map (\<lambda>i. start + real i * step) [0..<nat \<lceil>(stop - start) / step\<rceil>]"

text \<open>
  What the code indexes an axis with: a full slice, an array of integers (negative ones
  count from the end) or a boolean mask (of the length of the axis).
\<close>

datatype index = SliceAll | IntArray "int list" | BoolArray "bool list"

fun index_valid :: "nat \<Rightarrow> index \<Rightarrow> bool" where
  "index_valid n SliceAll = True"
| "index_valid n (IntArray js) = (\<forall>j\<in>set js. - int n \<le> j \<and> j < int n)"
| "index_valid n (BoolArray bs) = (length bs = n)"

fun index_take :: "nat \<Rightarrow> index \<Rightarrow> 'a list \<Rightarrow> 'a list" where
  "index_take n SliceAll xs = xs"
| "index_take n (IntArray js) xs = map (\<lambda>j. xs ! nat (if j < 0 then int n + j else j)) js"
| "index_take n (BoolArray bs) xs = map snd (filter fst (zip bs xs))"

fun index_size :: "nat \<Rightarrow> index \<Rightarrow> nat" where
  "index_size n SliceAll = n"
| "index_size n (IntArray js) = length js"
| "index_size n (BoolArray bs) = length (filter (\<lambda>b. b) bs)"

text \<open>\<open>xs[ix]\<close> on a one-dimensional array or along the first axis.\<close>

definition getitem :: "'a list \<Rightarrow> index \<Rightarrow> error + 'a list" where
  "getitem xs ix =
     (if index_valid (length xs) ix then Inr (index_take (length xs) ix xs) else Inl IndexError)"

text \<open>
  A three-dimensional array: \<open>arr\<close> has one entry per index of the first axis, each
  of them \<open>shape1\<close> rows of \<open>shape2\<close> numbers. The first dimension is the length of
  \<open>arr\<close>; the other two are kept beside the entries, as an array with no entries still
  has them.
\<close>

record ndarray3 =
  shape1 :: nat
  shape2 :: nat
  arr :: "npfloat list list list"

definition getitem_axis0 :: "ndarray3 \<Rightarrow> index \<Rightarrow> error + ndarray3" where
  "getitem_axis0 a ix =
     (if index_valid (length (arr a)) ix
      then Inr (a\<lparr>arr := index_take (length (arr a)) ix (arr a)\<rparr>)
      else Inl IndexError)"

definition getitem_axis1 :: "ndarray3 \<Rightarrow> index \<Rightarrow> error + ndarray3" where
  "getitem_axis1 a ix =
     (if index_valid (shape1 a) ix
      then Inr \<lparr>shape1 = index_size (shape1 a) ix, shape2 = shape2 a,
                arr = map (index_take (shape1 a) ix) (arr a)\<rparr>
      else Inl IndexError)"

definition getitem_axis2 :: "ndarray3 \<Rightarrow> index \<Rightarrow> error + ndarray3" where
  "getitem_axis2 a ix =
     (if index_valid (shape2 a) ix
      then Inr \<lparr>shape1 = shape1 a, shape2 = index_size (shape2 a) ix,
                arr = map (map (index_take (shape2 a) ix)) (arr a)\<rparr>
      else Inl IndexError)"

subsection \<open>The relative-time grid\<close>

text \<open>
  Line 277 of \<open>Epochs.__init__\<close>:
  \<^verbatim>\<open>np.r_[np.arange(-dt, tmin-dt/2, -dt)[::-1], np.arange(0, tmax+dt/2, dt)]
     if tmin < 0 and tmax > 0 else np.arange(tmin, tmax+dt/2, dt)\<close>
\<close>

definition Epochs_times :: "real \<Rightarrow> real \<Rightarrow> real \<Rightarrow> real list" where
  "Epochs_times tmin tmax dt =
     (if tmin < 0 \<and> tmax > 0
      then rev (arange (- dt) (tmin - dt / 2) (- dt)) @ arange 0 (tmax + dt / 2) dt
      else arange tmin (tmax + dt / 2) dt)"

subsection \<open>Baseline correction\<close>

text \<open>
  The \<open>baseline\<close> argument: Python's \<open>None\<close>, a string, or a pair of bounds of which
  either may be \<open>None\<close>.
\<close>

datatype baseline = BaselinePyNone | BaselineStr string | BaselineWin "real option" "real option"

text \<open>\<open>str.lower\<close> on ASCII text.\<close>

definition lower_char :: "char \<Rightarrow> char" where
  "lower_char c =
     (case map_of (zip ''ABCDEFGHIJKLMNOPQRSTUVWXYZ'' ''abcdefghijklmnopqrstuvwxyz'') c of
        None \<Rightarrow> c
      | Some d \<Rightarrow> d)"

definition lower :: "string \<Rightarrow> string" where
  "lower s = map lower_char s"

text \<open>
  The function that \<open>create_base_corr_func\<close> returns is applied to arrays of two and of
  three dimensions and works along the last axis. It is modelled by what it does to one
  row of that axis, given the length of the axis: a boolean mask of another length makes
  NumPy raise. \<^term>\<open>None\<close> is the Python \<open>None\<close> that falls out of the function for a
  string other than \<open>none\<close> and \<open>all\<close>.
\<close>

type_synonym base_corr = "nat \<Rightarrow> error + (npfloat list \<Rightarrow> npfloat list)"

definition create_base_corr_func :: "real list \<Rightarrow> baseline \<Rightarrow> error + base_corr option" where
  "create_base_corr_func times' baseline =
     (case (case baseline of BaselinePyNone \<Rightarrow> BaselineStr ''none'' | b \<Rightarrow> b) of
        BaselineStr s \<Rightarrow>
          if lower s = ''none'' then Inr (Some (\<lambda>n. Inr (\<lambda>x. x)))
          else if lower s = ''all''
          then Inr (Some (\<lambda>n. Inr (\<lambda>x. map (\<lambda>v. nan_minus v (nanmean x)) x)))
          else Inr None
      | BaselineWin lo hi \<Rightarrow>
          if (lo = None \<or> hi = None) \<and> times' = [] then Inl IndexError
          else
            let tmin = (case lo of None \<Rightarrow> hd times' | Some l \<Rightarrow> l);
                tmax = (case hi of None \<Rightarrow> last times' | Some h \<Rightarrow> h);
                time_sel = map (\<lambda>t. tmin \<le> t \<and> t \<le> tmax) times'
            in Inr (Some (\<lambda>n.
                 if length time_sel = n
                 then Inr (\<lambda>x. map (\<lambda>v. nan_minus v (nanmean (map snd (filter fst (zip time_sel x))))) x)
                 else Inl IndexError)))"

text \<open>Calling the returned function on a three-dimensional array.\<close>

definition call_base_corr :: "base_corr option \<Rightarrow> ndarray3 \<Rightarrow> error + ndarray3" where
  "call_base_corr bc x =
     (case bc of
        None \<Rightarrow> Inl TypeError
      | Some f \<Rightarrow>
          (case f (shape2 x) of
             Inl e \<Rightarrow> Inl e
           | Inr g \<Rightarrow> Inr (x\<lparr>arr := map (map g) (arr x)\<rparr>)))"

subsection \<open>Strings\<close>

text \<open>\<open>s.split(sep)\<close> with a one-character separator: empty pieces are kept.\<close>

fun split_on :: "char \<Rightarrow> string \<Rightarrow> string list" where
  "split_on sep [] = [[]]"
| "split_on sep (c # cs) =
     (if c = sep then [] # split_on sep cs
      else (case split_on sep cs of [] \<Rightarrow> [[c]] | w # ws \<Rightarrow> (c # w) # ws))"

text \<open>\<open>sep.join(xs)\<close>.\<close>

fun join :: "string \<Rightarrow> string list \<Rightarrow> string" where
  "join sep [] = []"
| "join sep [x] = x"
| "join sep (x # y # ys) = x @ sep @ join sep (y # ys)"

subsection \<open>Objects: events, the info dictionary, epochs\<close>

text \<open>
  A row of an event array: onset, duration and the label of the last column. The array
  holds the label as a float and the dictionary holds it as an integer; Python compares
  the two by value, so a whole number stands for both.
\<close>

record event =
  onset :: real
  duration :: real
  label :: int

text \<open>
  An \<open>info\<close> dictionary is a mutable object that several Python objects may refer to:
  \<open>copy.copy\<close> in \<open>_copy\<close> is shallow, and \<open>Epochs.__init__\<close> takes \<open>raw.info\<close> as it is.
  So dictionaries live in a store, and an object holds the address of its dictionary.
\<close>

datatype pyval =
    PyNone
  | PyFloat real
  | PyInt int
  | PyStr string
  | PyStrList "string list"
  | PyBaseline baseline

type_synonym info = "string \<rightharpoonup> pyval"

type_synonym addr = nat

type_synonym store = "addr \<Rightarrow> info"

text \<open>
  An \<open>Epochs\<close> object. \<open>event_id\<close> is a dictionary from names to labels, kept in
  insertion order as Python keeps it.
\<close>

record Epochs =
  ep_events :: "event list"
  ep_event_id :: "(string \<times> int) list"
  ep_info :: addr
  ep_times :: "real list"
  ep_data :: ndarray3

abbreviation n_events :: "Epochs \<Rightarrow> nat" where
  "n_events self \<equiv> length (arr (ep_data self))"

subsection \<open>Selection: \<open>pick\<close>, \<open>_partial_match_event\<close>, \<open>drop_events\<close>\<close>

datatype keys = Key string | Keys "string list"

text \<open>
  \<open>_partial_match_event\<close>: a single name is a list of one name; then one boolean row
  per key, stacked, and \<open>np.any\<close> down the columns. \<open>np.vstack\<close> raises on an empty
  list of rows.
\<close>

definition key_list :: "keys \<Rightarrow> string list" where
  "key_list ks = (case ks of Key s \<Rightarrow> [s] | Keys ss \<Rightarrow> ss)"

definition partial_match_event :: "Epochs \<Rightarrow> keys \<Rightarrow> error + bool list" where
  "partial_match_event self ks =
     (let keys = key_list ks;
          matched =
            map (\<lambda>key.
                   let key_set = set (split_on CHR ''/'' key);
                       matched_id = map snd (filter (\<lambda>(ev, i). key_set \<subseteq> set (split_on CHR ''/'' ev))
                                                    (ep_event_id self))
                   in map (\<lambda>e. label e \<in> set matched_id) (ep_events self))
                keys
      in if matched = [] then Inl ValueError
         else Inr (map (\<lambda>k. \<exists>row\<in>set matched. row ! k) [0..<length (ep_events self)]))"

text \<open>
  The arguments of \<open>pick\<close>. \<open>event\<close> is \<open>None\<close>, a name, a list of names, or anything
  NumPy takes as an index; \<open>feature\<close> is \<open>None\<close> or an index; \<open>time\<close> is \<open>None\<close>, a pair
  of bounds, or an index.
\<close>

datatype event_arg = EvNone | EvKeys keys | EvIndex index

datatype time_arg = TmNone | TmPair real real | TmIndex index

text \<open>
  Lines 339 to 345. The test \<open>isinstance(event[0], str)\<close> reads \<open>event[0]\<close> of every
  iterable that is not a string, so an empty list or array raises there. On names, the
  key \<open>condition\<close> is written into \<open>self.info\<close>.
\<close>

definition pick_sel_event :: "Epochs \<Rightarrow> event_arg \<Rightarrow> store \<Rightarrow> (error + index) \<times> store" where
  "pick_sel_event self event st =
     (case event of
        EvNone \<Rightarrow> (Inr SliceAll, st)
      | EvKeys (Key s) \<Rightarrow>
          (case partial_match_event self (Key s) of
             Inl e \<Rightarrow> (Inl e, st)
           | Inr m \<Rightarrow> (Inr (BoolArray m), st(ep_info self := (st (ep_info self))(''condition'' \<mapsto> PyStr s))))
      | EvKeys (Keys ss) \<Rightarrow>
          if ss = [] then (Inl IndexError, st)
          else
            (case partial_match_event self (Keys ss) of
               Inl e \<Rightarrow> (Inl e, st)
             | Inr m \<Rightarrow>
                 (Inr (BoolArray m),
                  st(ep_info self := (st (ep_info self))(''condition'' \<mapsto> PyStr (join '' | '' ss)))))
      | EvIndex SliceAll \<Rightarrow> (Inr SliceAll, st)
      | EvIndex (IntArray js) \<Rightarrow> if js = [] then (Inl IndexError, st) else (Inr (IntArray js), st)
      | EvIndex (BoolArray bs) \<Rightarrow> if bs = [] then (Inl IndexError, st) else (Inr (BoolArray bs), st))"

text \<open>
  Lines 354 to 359. Any iterable of length two is read as a pair of bounds, also an index
  of two integers or two booleans (\<open>True\<close> is 1).
\<close>

definition pick_sel_time :: "Epochs \<Rightarrow> time_arg \<Rightarrow> index" where
  "pick_sel_time self time =
     (let between = (\<lambda>lo hi. BoolArray (map (\<lambda>t. lo \<le> t \<and> t \<le> hi) (ep_times self)))
      in case time of
           TmNone \<Rightarrow> SliceAll
         | TmPair lo hi \<Rightarrow> between lo hi
         | TmIndex (IntArray [a, b]) \<Rightarrow> between (real_of_int a) (real_of_int b)
         | TmIndex (BoolArray [a, b]) \<Rightarrow> between (of_bool a) (of_bool b)
         | TmIndex ix \<Rightarrow> ix)"

text \<open>Lines 349 to 352.\<close>

definition pick_sel_feature :: "index option \<Rightarrow> index" where
  "pick_sel_feature feature = (case feature of None \<Rightarrow> SliceAll | Some ix \<Rightarrow> ix)"

text \<open>The dictionary comprehension of lines 347 and 375.\<close>

definition prune_event_id :: "(string \<times> int) list \<Rightarrow> event list \<Rightarrow> (string \<times> int) list" where
  "prune_event_id event_id events = filter (\<lambda>(ev, i). i \<in> set (map label events)) event_id"

text \<open>
  \<open>pick\<close>. The copy \<open>inst\<close> has the address of the dictionary of \<open>self\<close>, so the writes to
  \<open>inst.info\<close> are writes to that one dictionary. A store that was written before an
  exception stays written.
\<close>

definition pick :: "Epochs \<Rightarrow> event_arg \<Rightarrow> index option \<Rightarrow> time_arg \<Rightarrow> store \<Rightarrow> (error + Epochs) \<times> store" where
  "pick self event feature time st =
     (case pick_sel_event self event st of
        (Inl e, st1) \<Rightarrow> (Inl e, st1)
      | (Inr sel_event, st1) \<Rightarrow>
     (case getitem (ep_events self) sel_event of
        Inl e \<Rightarrow> (Inl e, st1)
      | Inr events' \<Rightarrow>
     (let event_id' = prune_event_id (ep_event_id self) events';
          sel_feature = pick_sel_feature feature;
          sel_time = pick_sel_time self time
      in
     (case getitem (ep_times self) sel_time of
        Inl e \<Rightarrow> (Inl e, st1)
      | Inr times' \<Rightarrow>
          if times' = [] then (Inl IndexError, st1)
          else
     (let st2 = st1(ep_info self := (st1 (ep_info self))
                      (''tmin'' \<mapsto> PyFloat (hd times'), ''tmax'' \<mapsto> PyFloat (last times')))
      in
     (case getitem_axis0 (ep_data self) sel_event of
        Inl e \<Rightarrow> (Inl e, st2)
      | Inr d0 \<Rightarrow>
     (case getitem_axis1 d0 sel_feature of
        Inl e \<Rightarrow> (Inl e, st2)
      | Inr d1 \<Rightarrow>
     (case getitem_axis2 d1 sel_time of
        Inl e \<Rightarrow> (Inl e, st2)
      | Inr d2 \<Rightarrow>
          (Inr \<lparr>ep_events = events', ep_event_id = event_id', ep_info = ep_info self,
                ep_times = times', ep_data = d2\<rparr>, st2)))))))))"

text \<open>
  \<open>np.delete(xs, ids, axis=0)\<close> for a list of integers: an index out of bounds raises,
  a negative one counts from the end, and the rows at the other positions stay.
\<close>

definition np_delete :: "'a list \<Rightarrow> int list \<Rightarrow> error + 'a list" where
  "np_delete xs ids =
     (let n = length xs
      in if \<forall>j\<in>set ids. - int n \<le> j \<and> j < int n
         then Inr (nths xs {k. int k \<notin> (\<lambda>j. if j < 0 then int n + j else j) ` set ids})
         else Inl IndexError)"

definition drop_events :: "Epochs \<Rightarrow> int list \<Rightarrow> error + Epochs" where
  "drop_events self ids =
     (case np_delete (arr (ep_data self)) ids of
        Inl e \<Rightarrow> Inl e
      | Inr rows \<Rightarrow>
     (case np_delete (ep_events self) ids of
        Inl e \<Rightarrow> Inl e
      | Inr events' \<Rightarrow>
          Inr (self\<lparr>ep_data := (ep_data self)\<lparr>arr := rows\<rparr>,
                    ep_events := events',
                    ep_event_id := prune_event_id (ep_event_id self) events'\<rparr>)))"

subsection \<open>\<open>apply_baseline\<close> and \<open>concatinate_epochs\<close>\<close>

definition apply_baseline :: "Epochs \<Rightarrow> baseline \<Rightarrow> store \<Rightarrow> (error + Epochs) \<times> store" where
  "apply_baseline self baseline st =
     (case create_base_corr_func (ep_times self) baseline of
        Inl e \<Rightarrow> (Inl e, st)
      | Inr base_corr \<Rightarrow>
     (case call_base_corr base_corr (ep_data self) of
        Inl e \<Rightarrow> (Inl e, st)
      | Inr d \<Rightarrow>
          (Inr (self\<lparr>ep_data := d\<rparr>),
           st(ep_info self := (st (ep_info self))(''baseline'' \<mapsto> PyBaseline baseline)))))"

text \<open>
  The dictionary comprehension of line 497 inserts the items of every run in turn: a
  name that is already there keeps its place and takes the new label.
\<close>

definition merge_event_id :: "(string \<times> int) list list \<Rightarrow> (string \<times> int) list" where
  "merge_event_id ds = fold (\<lambda>(k, v). AList.update k v) (concat ds) []"

text \<open>
  \<open>np.concatenate\<close> along the first axis wants the other dimensions equal. The event
  arrays always have three columns.
\<close>

definition concatinate_epochs :: "Epochs list \<Rightarrow> error + Epochs" where
  "concatinate_epochs epochs_list =
     (case epochs_list of
        [] \<Rightarrow> Inl IndexError
      | epochs # _ \<Rightarrow>
          if \<forall>e\<in>set epochs_list. shape1 (ep_data e) = shape1 (ep_data epochs)
                                   \<and> shape2 (ep_data e) = shape2 (ep_data epochs)
          then Inr (epochs\<lparr>ep_data := (ep_data epochs)\<lparr>arr := concat (map (\<lambda>e. arr (ep_data e)) epochs_list)\<rparr>,
                           ep_events := concat (map ep_events epochs_list),
                           ep_event_id := merge_event_id (map ep_event_id epochs_list)\<rparr>)
          else Inl ValueError)"

subsection \<open>Concatenating then selecting, and selecting then concatenating\<close>

text \<open>
  Selecting within each run, in the order of the runs: the list comprehension
  \<open>[epochs.pick(event, feature, time) for epochs in epochs_list]\<close>.
\<close>

fun pick_each ::
  "Epochs list \<Rightarrow> event_arg \<Rightarrow> index option \<Rightarrow> time_arg \<Rightarrow> store \<Rightarrow> (error + Epochs list) \<times> store" where
  "pick_each [] event feature time st = (Inr [], st)"
| "pick_each (epochs # rest) event feature time st =
     (case pick epochs event feature time st of
        (Inl x, st1) \<Rightarrow> (Inl x, st1)
      | (Inr picked, st1) \<Rightarrow>
          (case pick_each rest event feature time st1 of
             (Inl x, st2) \<Rightarrow> (Inl x, st2)
           | (Inr others, st2) \<Rightarrow> (Inr (picked # others), st2)))"

definition concat_then_pick ::
  "Epochs list \<Rightarrow> event_arg \<Rightarrow> index option \<Rightarrow> time_arg \<Rightarrow> store \<Rightarrow> error + Epochs" where
  "concat_then_pick epochs_list event feature time st =
     (case concatinate_epochs epochs_list of
        Inl x \<Rightarrow> Inl x
      | Inr joined \<Rightarrow> fst (pick joined event feature time st))"

definition pick_then_concat ::
  "Epochs list \<Rightarrow> event_arg \<Rightarrow> index option \<Rightarrow> time_arg \<Rightarrow> store \<Rightarrow> error + Epochs" where
  "pick_then_concat epochs_list event feature time st =
     (case fst (pick_each epochs_list event feature time st) of
        Inl x \<Rightarrow> Inl x
      | Inr picked \<Rightarrow> concatinate_epochs picked)"

text \<open>
  Two collections are the same when they have the same data tensor, events, times and
  info dictionary, and the same dictionary of labels as Python compares dictionaries:
  the same labels under the same names, in any order.
\<close>

definition same_collection :: "Epochs \<Rightarrow> Epochs \<Rightarrow> bool" where
  "same_collection a b \<longleftrightarrow>
     ep_data a = ep_data b \<and> ep_events a = ep_events b \<and> ep_times a = ep_times b
     \<and> ep_info a = ep_info b \<and> map_of (ep_event_id a) = map_of (ep_event_id b)"

subsection \<open>Epoch extraction: \<open>Epochs.__init__\<close>\<close>

text \<open>
  A \<open>Raw\<close> recording, as far as \<open>Epochs.__init__\<close> reads it: the array
  \<open>[n_features, n_times]\<close>, the time vector and the info dictionary.
\<close>

record Raw =
  raw_data :: "npfloat list list"
  raw_times :: "real list"
  raw_info :: addr

text \<open>
  What the constructor takes from outside this repository stays a parameter:
  the \<open>%g\<close> formatting of a label, the zero-phase Hamming smoothing
  (\<open>signal.hamming\<close> and \<open>signal.filtfilt\<close>, which keeps the shape of its input) and
  \<open>interpolate.interp1d\<close>, which gives for each feature a function of time, NaN out of
  the range of the recording. Each of them may raise.
\<close>

record externals =
  format_g :: "int \<Rightarrow> string"
  filtfilt_hamming :: "nat \<Rightarrow> npfloat list list \<Rightarrow> error + npfloat list list"
  interp1d :: "real list \<Rightarrow> npfloat list list \<Rightarrow> string \<Rightarrow> error + (nat \<Rightarrow> real \<Rightarrow> npfloat)"

text \<open>\<open>_default_event_id\<close>: the sorted distinct labels, each under its printed name.\<close>

definition default_event_id :: "(int \<Rightarrow> string) \<Rightarrow> event list \<Rightarrow> (string \<times> int) list" where
  "default_event_id fmt events =
     fold (\<lambda>i. AList.update (fmt i) i) (sorted_list_of_set (set (map label events))) []"

datatype conditions = CondNone | CondStr string | CondList "string list"

text \<open>
  One pass of the loop of lines 286 and 287 for an event at onset \<open>t\<close>:
  \<open>base_corr(f(np.arange(t+tmin, t+tmax+dt/2, dt)))\<close>, of shape \<open>[n_features, m]\<close>,
  assigned to \<open>self.data[k]\<close> of shape \<open>[n_features, n_times]\<close>. The assignment
  broadcasts a single column and raises on any other mismatch.
\<close>

definition epoch_at ::
  "(nat \<Rightarrow> real \<Rightarrow> npfloat) \<Rightarrow> base_corr option \<Rightarrow> nat \<Rightarrow> nat \<Rightarrow> real \<Rightarrow> real \<Rightarrow> real \<Rightarrow> real
     \<Rightarrow> error + npfloat list list" where
  "epoch_at f base_corr n_features n_times tmin tmax dt t =
     (let samples = arange (t + tmin) (t + tmax + dt / 2) dt;
          y = map (\<lambda>j. map (f j) samples) [0..<n_features]
      in case base_corr of
           None \<Rightarrow> Inl TypeError
         | Some bc \<Rightarrow>
             (case bc (length samples) of
                Inl e \<Rightarrow> Inl e
              | Inr g \<Rightarrow>
                  if length samples = n_times then Inr (map g y)
                  else if length samples = 1 then Inr (map (\<lambda>row. replicate n_times (hd (g row))) y)
                  else Inl ValueError))"

text \<open>A loop whose body may raise: the first exception ends it.\<close>

fun for_each :: "('a \<Rightarrow> error + 'b) \<Rightarrow> 'a list \<Rightarrow> error + 'b list" where
  "for_each body [] = Inr []"
| "for_each body (x # xs) =
     (case body x of
        Inl e \<Rightarrow> Inl e
      | Inr y \<Rightarrow> (case for_each body xs of Inl e \<Rightarrow> Inl e | Inr ys \<Rightarrow> Inr (y # ys)))"

text \<open>
  The constructor for a recording that is not \<open>None\<close>. \<open>self.info = raw.info\<close> takes the
  address of the dictionary of the recording; the writes of lines 267 to 276 go to it.
\<close>

definition Epochs_init ::
  "externals \<Rightarrow> Raw \<Rightarrow> event list \<Rightarrow> (string \<times> int) list option \<Rightarrow> real \<Rightarrow> real \<Rightarrow> baseline
     \<Rightarrow> real \<Rightarrow> string \<Rightarrow> nat option \<Rightarrow> conditions \<Rightarrow> store \<Rightarrow> (error + Epochs) \<times> store" where
  "Epochs_init ext raw events event_id tmin tmax baseline dt interp hamm conds st =
     (let event_id' = (case event_id of None \<Rightarrow> default_event_id (format_g ext) events | Some d \<Rightarrow> d);
          a = raw_info raw
      in if dt = 0 then (Inl ZeroDivisionError, st)
         else
     (let st' = st(a := (st a)
                   (''sfreq'' \<mapsto> PyFloat (1 / dt),
                    ''tmin'' \<mapsto> PyFloat tmin,
                    ''tmax'' \<mapsto> PyFloat tmax,
                    ''baseline'' \<mapsto> PyBaseline baseline,
                    ''interp'' \<mapsto> PyStr interp,
                    ''hamm'' \<mapsto> (case hamm of None \<Rightarrow> PyNone | Some h \<Rightarrow> PyInt (int h)),
                    ''conditions'' \<mapsto> (case conds of
                                         CondNone \<Rightarrow> PyNone
                                       | CondStr c \<Rightarrow> PyStrList (split_on CHR ''/'' c)
                                       | CondList cs \<Rightarrow> PyStrList cs),
                    ''condition'' \<mapsto> PyNone));
          times' = Epochs_times tmin tmax dt
      in
     (case (case hamm of None \<Rightarrow> Inr (raw_data raw) | Some h \<Rightarrow> filtfilt_hamming ext h (raw_data raw)) of
        Inl e \<Rightarrow> (Inl e, st')
      | Inr x \<Rightarrow>
     (case interp1d ext (raw_times raw) x interp of
        Inl e \<Rightarrow> (Inl e, st')
      | Inr f \<Rightarrow>
     (case create_base_corr_func times' baseline of
        Inl e \<Rightarrow> (Inl e, st')
      | Inr base_corr \<Rightarrow>
     (let n_features = length (raw_data raw)
      in
     (case for_each (epoch_at f base_corr n_features (length times') tmin tmax dt) (map onset events) of
        Inl e \<Rightarrow> (Inl e, st')
      | Inr rows \<Rightarrow>
          (Inr \<lparr>ep_events = events, ep_event_id = event_id', ep_info = a, ep_times = times',
                ep_data = \<lparr>shape1 = n_features, shape2 = length times', arr = rows\<rparr>\<rparr>, st'))))))))"

text \<open>
  A piecewise linear interpolant without extrapolation, for the concrete runs below:
  \<open>interp1d(times, x, kind='linear', fill_value=nan, bounds_error=False)\<close> on increasing
  times.
\<close>

fun linear_interp :: "real list \<Rightarrow> npfloat list \<Rightarrow> real \<Rightarrow> npfloat" where
  "linear_interp (t0 # t1 # ts) (y0 # y1 # ys) t =
     (if t < t0 then None
      else if t \<le> t1
      then (case y0 of
              None \<Rightarrow> None
            | Some a \<Rightarrow> (case y1 of None \<Rightarrow> None | Some b \<Rightarrow> Some (a + (b - a) * (t - t0) / (t1 - t0))))
      else linear_interp (t1 # ts) (y1 # ys) t)"
| "linear_interp ts ys t = None"

text \<open>
  The externals of the concrete runs: linear interpolation as above; the runs pass the
  dictionary of labels and ask for no smoothing, so the other two are not called.
\<close>

definition linear_externals :: externals where
  "linear_externals =
     \<lparr>format_g = (\<lambda>i. []),
      filtfilt_hamming = (\<lambda>h x. Inl ValueError),
      interp1d = (\<lambda>ts x kind.
        if kind = ''linear'' \<and> 2 \<le> length ts \<and> list_all (\<lambda>row. length row = length ts) x
        then Inr (\<lambda>j. linear_interp ts (x ! j))
        else Inl ValueError)\<rparr>"

subsection \<open>Stimulus timing files: \<open>read_events\<close>\<close>

text \<open>\<open>str.strip()\<close>, \<open>str.split()\<close> and \<open>str.startswith('*')\<close> on ASCII text.\<close>

definition is_space :: "char \<Rightarrow> bool" where
  "is_space c \<longleftrightarrow>
     c \<in> set [CHR '' '', CHR 0x09, CHR 0x0A, CHR 0x0B, CHR 0x0C, CHR 0x0D,
               CHR 0x1C, CHR 0x1D, CHR 0x1E, CHR 0x1F]"

definition strip :: "string \<Rightarrow> string" where
  "strip s = rev (dropWhile is_space (rev (dropWhile is_space s)))"

fun split_words :: "string \<Rightarrow> string \<Rightarrow> string list" where
  "split_words w [] = (if w = [] then [] else [w])"
| "split_words w (c # cs) =
     (if is_space c then (if w = [] then split_words [] cs else w # split_words [] cs)
      else split_words (w @ [c]) cs)"

definition split_ws :: "string \<Rightarrow> string list" where
  "split_ws s = split_words [] s"

definition startswith_star :: "string \<Rightarrow> bool" where
  "startswith_star s = (case s of [] \<Rightarrow> False | c # _ \<Rightarrow> c = CHR ''*'')"

text \<open>
  The inner loop of \<open>read_events\<close> over the lines of one file, from line \<open>rid\<close> on. The
  lists \<open>t\<close> and \<open>e\<close> hold the onsets and the labels of each run. \<open>float\<close> stands for
  \<open>np.float_\<close> on one token: \<^term>\<open>None\<close> where it raises. \<open>rid\<close> counts every line
  of the file, blank ones too, and \<open>t[rid]\<close> raises past the end of \<open>t\<close>.
\<close>

fun read_lines ::
  "(string \<Rightarrow> real option) \<Rightarrow> nat \<Rightarrow> nat \<Rightarrow> string list \<Rightarrow> real list list \<Rightarrow> int list list
     \<Rightarrow> error + real list list \<times> int list list" where
  "read_lines float eid rid [] t e = Inr (t, e)"
| "read_lines float eid rid (l # ls) t e =
     (let line = strip l
      in if line = [] then read_lines float eid (Suc rid) ls t e
         else
           let t1 = (if eid = 0 then t @ [[]] else t);
               e1 = (if eid = 0 then e @ [[]] else e)
           in if startswith_star line then read_lines float eid (Suc rid) ls t1 e1
              else
                (case those (map float (split_ws line)) of
                   None \<Rightarrow> Inl ValueError
                 | Some t_run \<Rightarrow>
                     if rid < length t1 \<and> rid < length e1
                     then read_lines float eid (Suc rid) ls
                            (t1[rid := t1 ! rid @ t_run])
                            (e1[rid := e1 ! rid @ replicate (length t_run) (int eid + 1)])
                     else Inl IndexError))"

text \<open>The outer loop over the files, a file being its name in the dictionary and its lines.\<close>

fun read_files ::
  "(string \<Rightarrow> real option) \<Rightarrow> nat \<Rightarrow> (string \<times> string list) list \<Rightarrow> real list list \<Rightarrow> int list list
     \<Rightarrow> (string \<times> int) list \<Rightarrow> error + real list list \<times> int list list \<times> (string \<times> int) list" where
  "read_files float eid [] t e event_id = Inr (t, e, event_id)"
| "read_files float eid ((ev, lines) # fs) t e event_id =
     (case read_lines float eid 0 lines t e of
        Inl x \<Rightarrow> Inl x
      | Inr (t1, e1) \<Rightarrow> read_files float (Suc eid) fs t1 e1 (AList.update ev (int eid + 1) event_id))"

text \<open>
  \<open>read_events\<close> on a dictionary from names to files. Each run is sorted by onset; rows
  of equal onset keep their order here.
\<close>

definition read_events ::
  "(string \<Rightarrow> real option) \<Rightarrow> (string \<times> string list) list
     \<Rightarrow> error + event list list \<times> (string \<times> int) list" where
  "read_events float event_files =
     (case read_files float 0 event_files [] [] [] of
        Inl x \<Rightarrow> Inl x
      | Inr (t, e, event_id) \<Rightarrow>
          Inr (map (\<lambda>rid. sort_key onset
                            (map (\<lambda>(a, b). \<lparr>onset = a, duration = 0, label = b\<rparr>) (zip (t ! rid) (e ! rid))))
                   [0..<length t],
               event_id))"

text \<open>
  For the concrete runs below: \<open>np.float_\<close> on a string of decimal digits, which is all
  that their files hold.
\<close>

definition digit_of :: "char \<Rightarrow> nat option" where
  "digit_of c = map_of (zip ''0123456789'' [0, 1, 2, 3, 4, 5, 6, 7, 8, 9]) c"

definition float_of_digits :: "string \<Rightarrow> real option" where
  "float_of_digits s =
     (if s = [] then None
      else map_option (\<lambda>ds. real (foldl (\<lambda>n d. 10 * n + d) 0 ds)) (those (map digit_of s)))"

subsection \<open>Well-formed timing files\<close>

text \<open>
  A file whose lines are all well formed: none is blank, and the tokens of every line
  that does not start with \<open>*\<close> are numbers.
\<close>

definition well_formed :: "(string \<Rightarrow> real option) \<Rightarrow> string list \<Rightarrow> bool" where
  "well_formed float lines \<longleftrightarrow>
     list_all (\<lambda>l. strip l \<noteq> []
                   \<and> (startswith_star (strip l) \<or> those (map float (split_ws (strip l))) \<noteq> None))
              lines"

text \<open>
  A file overruns \<open>n\<close> runs when it has a line of timings, not a \<open>*\<close> line, at a line
  number from \<open>n\<close> on.
\<close>

definition overruns :: "nat \<Rightarrow> string list \<Rightarrow> bool" where
  "overruns n lines \<longleftrightarrow> (\<exists>i<length lines. n \<le> i \<and> \<not> startswith_star (strip (lines ! i)))"

subsection \<open>The matching rule of the specification\<close>

text \<open>
  The words of the specification: a query name matches a stored name if its tokens are
  among the tokens of the stored name, and an event is selected if a stored name of its
  label is matched by one of the query names.
\<close>

definition name_matches :: "string \<Rightarrow> string \<Rightarrow> bool" where
  "name_matches query stored \<longleftrightarrow> set (split_on CHR ''/'' query) \<subseteq> set (split_on CHR ''/'' stored)"

definition event_selected :: "(string \<times> int) list \<Rightarrow> string list \<Rightarrow> event \<Rightarrow> bool" where
  "event_selected event_id queries e \<longleftrightarrow>
     (\<exists>(stored, i)\<in>set event_id. i = label e \<and> (\<exists>query\<in>set queries. name_matches query stored))"

subsection \<open>The invariants of the data model\<close>

text \<open>
  The invariants of an Epoch Collection that the operations are to keep: the data tensor
  has one row per event, and every label of the event array has an entry in the
  dictionary.
\<close>

definition epochs_inv :: "Epochs \<Rightarrow> bool" where
  "epochs_inv e \<longleftrightarrow>
     length (arr (ep_data e)) = length (ep_events e)
     \<and> label ` set (ep_events e) \<subseteq> snd ` set (ep_event_id e)"

text \<open>
  Dictionaries agree when no name stands for two different labels in them.
\<close>

definition names_agree :: "(string \<times> int) list list \<Rightarrow> bool" where
  "names_agree ds \<longleftrightarrow>
     (\<forall>k v w. (k, v) \<in> set (concat ds) \<and> (k, w) \<in> set (concat ds) \<longrightarrow> v = w)"

subsection \<open>Selection by name as a function\<close>

text \<open>What an event argument that is no index selects: everything, or the named events.\<close>

definition selected :: "event_arg \<Rightarrow> (string \<times> int) list \<Rightarrow> event \<Rightarrow> bool" where
  "selected event d = (case event of EvKeys ks \<Rightarrow> event_selected d (key_list ks) | _ \<Rightarrow> (\<lambda>e. True))"

text \<open>
  What \<open>pick\<close> returns on an event argument that is no index, and when it raises.
\<close>

definition pick_result :: "Epochs \<Rightarrow> event_arg \<Rightarrow> index option \<Rightarrow> time_arg \<Rightarrow> Epochs" where
  "pick_result self event feature time =
     (let events' = filter (selected event (ep_event_id self)) (ep_events self);
          sel_feature = pick_sel_feature feature;
          sel_time = pick_sel_time self time
      in \<lparr>ep_events = events',
          ep_event_id = prune_event_id (ep_event_id self) events',
          ep_info = ep_info self,
          ep_times = index_take (length (ep_times self)) sel_time (ep_times self),
          ep_data =
            \<lparr>shape1 = index_size (shape1 (ep_data self)) sel_feature,
             shape2 = index_size (shape2 (ep_data self)) sel_time,
             arr = map (\<lambda>row. map (index_take (shape2 (ep_data self)) sel_time)
                                (index_take (shape1 (ep_data self)) sel_feature row))
                       (map fst (filter (\<lambda>(row, e). selected event (ep_event_id self) e)
                                        (zip (arr (ep_data self)) (ep_events self))))\<rparr>\<rparr>)"

definition pick_raises :: "Epochs \<Rightarrow> event_arg \<Rightarrow> index option \<Rightarrow> time_arg \<Rightarrow> bool" where
  "pick_raises self event feature time \<longleftrightarrow>
     event = EvKeys (Keys [])
     \<or> \<not> index_valid (length (ep_times self)) (pick_sel_time self time)
     \<or> index_take (length (ep_times self)) (pick_sel_time self time) (ep_times self) = []
     \<or> \<not> index_valid (shape1 (ep_data self)) (pick_sel_feature feature)
     \<or> \<not> index_valid (shape2 (ep_data self)) (pick_sel_time self time)"

subsection \<open>Two runs of one experiment\<close>

text \<open>
  The runs used in the concrete checks below: events at \<open>10\<close> and \<open>30\<close> in run A, at \<open>15\<close>
  and \<open>35\<close> in run B, under the labels \<open>Cond/X = 1\<close> and \<open>Cond/Y = 2\<close>, one feature and
  the grid \<open>[-1, 0, 1]\<close>. The info dictionaries are at the addresses \<open>0\<close> and \<open>1\<close> of
  the store \<open>store0\<close>.
\<close>

definition cond_xy :: "(string \<times> int) list" where
  "cond_xy = [(''Cond/X'', 1), (''Cond/Y'', 2)]"

definition run_a :: Epochs where
  "run_a =
     \<lparr>ep_events = [\<lparr>onset = 10, duration = 0, label = 1\<rparr>, \<lparr>onset = 30, duration = 0, label = 2\<rparr>],
      ep_event_id = cond_xy,
      ep_info = 0,
      ep_times = [-1, 0, 1],
      ep_data = \<lparr>shape1 = 1, shape2 = 3,
                 arr = [[[Some 1, Some 3, None]], [[Some 2, Some 2, Some 5]]]\<rparr>\<rparr>"

definition run_b :: Epochs where
  "run_b =
     \<lparr>ep_events = [\<lparr>onset = 15, duration = 0, label = 2\<rparr>, \<lparr>onset = 35, duration = 0, label = 1\<rparr>],
      ep_event_id = cond_xy,
      ep_info = 1,
      ep_times = [-1, 0, 1],
      ep_data = \<lparr>shape1 = 1, shape2 = 3,
                 arr = [[[Some 4, Some 6, Some 8]], [[Some 7, Some 7, Some 7]]]\<rparr>\<rparr>"

text \<open>What \<open>pick('X')\<close> returns on run A.\<close>

definition run_a_x :: Epochs where
  "run_a_x =
     \<lparr>ep_events = [\<lparr>onset = 10, duration = 0, label = 1\<rparr>],
      ep_event_id = [(''Cond/X'', 1)],
      ep_info = 0,
      ep_times = [-1, 0, 1],
      ep_data = \<lparr>shape1 = 1, shape2 = 3, arr = [[[Some 1, Some 3, None]]]\<rparr>\<rparr>"

text \<open>
  What \<open>drop_events([0])\<close> returns on run A, what \<open>concatinate_epochs\<close> returns on
  the runs A and B, and two runs C and D that give the name \<open>A\<close> two different labels,
  with what \<open>concatinate_epochs\<close> returns on them.
\<close>

definition run_a_rest :: Epochs where
  "run_a_rest =
     \<lparr>ep_events = [\<lparr>onset = 30, duration = 0, label = 2\<rparr>],
      ep_event_id = [(''Cond/Y'', 2)],
      ep_info = 0,
      ep_times = [-1, 0, 1],
      ep_data = \<lparr>shape1 = 1, shape2 = 3, arr = [[[Some 2, Some 2, Some 5]]]\<rparr>\<rparr>"

definition run_ab :: Epochs where
  "run_ab =
     \<lparr>ep_events = [\<lparr>onset = 10, duration = 0, label = 1\<rparr>, \<lparr>onset = 30, duration = 0, label = 2\<rparr>,
                   \<lparr>onset = 15, duration = 0, label = 2\<rparr>, \<lparr>onset = 35, duration = 0, label = 1\<rparr>],
      ep_event_id = cond_xy,
      ep_info = 0,
      ep_times = [-1, 0, 1],
      ep_data = \<lparr>shape1 = 1, shape2 = 3,
                 arr = [[[Some 1, Some 3, None]], [[Some 2, Some 2, Some 5]],
                        [[Some 4, Some 6, Some 8]], [[Some 7, Some 7, Some 7]]]\<rparr>\<rparr>"

definition run_c :: Epochs where
  "run_c =
     \<lparr>ep_events = [\<lparr>onset = 10, duration = 0, label = 1\<rparr>],
      ep_event_id = [(''A'', 1)],
      ep_info = 0,
      ep_times = [-1, 0, 1],
      ep_data = \<lparr>shape1 = 1, shape2 = 3, arr = [[[Some 1, Some 3, None]]]\<rparr>\<rparr>"

definition run_d :: Epochs where
  "run_d =
     \<lparr>ep_events = [\<lparr>onset = 15, duration = 0, label = 2\<rparr>],
      ep_event_id = [(''A'', 2)],
      ep_info = 1,
      ep_times = [-1, 0, 1],
      ep_data = \<lparr>shape1 = 1, shape2 = 3, arr = [[[Some 4, Some 6, Some 8]]]\<rparr>\<rparr>"

definition run_cd :: Epochs where
  "run_cd =
     \<lparr>ep_events = [\<lparr>onset = 10, duration = 0, label = 1\<rparr>, \<lparr>onset = 15, duration = 0, label = 2\<rparr>],
      ep_event_id = [(''A'', 2)],
      ep_info = 0,
      ep_times = [-1, 0, 1],
      ep_data = \<lparr>shape1 = 1, shape2 = 3,
                 arr = [[[Some 1, Some 3, None]], [[Some 4, Some 6, Some 8]]]\<rparr>\<rparr>"

text \<open>
  The runs A and B joined, under \<open>pick('X')\<close> and under \<open>pick([0])\<close>; and the first
  events of the runs A and B, joined.
\<close>

definition run_ab_x :: Epochs where
  "run_ab_x =
     \<lparr>ep_events = [\<lparr>onset = 10, duration = 0, label = 1\<rparr>, \<lparr>onset = 35, duration = 0, label = 1\<rparr>],
      ep_event_id = [(''Cond/X'', 1)],
      ep_info = 0,
      ep_times = [-1, 0, 1],
      ep_data = \<lparr>shape1 = 1, shape2 = 3,
                 arr = [[[Some 1, Some 3, None]], [[Some 7, Some 7, Some 7]]]\<rparr>\<rparr>"

definition run_ab_first :: Epochs where
  "run_ab_first =
     \<lparr>ep_events = [\<lparr>onset = 10, duration = 0, label = 1\<rparr>],
      ep_event_id = [(''Cond/X'', 1)],
      ep_info = 0,
      ep_times = [-1, 0, 1],
      ep_data = \<lparr>shape1 = 1, shape2 = 3, arr = [[[Some 1, Some 3, None]]]\<rparr>\<rparr>"

definition run_ab_firsts :: Epochs where
  "run_ab_firsts =
     \<lparr>ep_events = [\<lparr>onset = 10, duration = 0, label = 1\<rparr>, \<lparr>onset = 15, duration = 0, label = 2\<rparr>],
      ep_event_id = cond_xy,
      ep_info = 0,
      ep_times = [-1, 0, 1],
      ep_data = \<lparr>shape1 = 1, shape2 = 3,
                 arr = [[[Some 1, Some 3, None]], [[Some 4, Some 6, Some 8]]]\<rparr>\<rparr>"

text \<open>
  A run E of three events under three composite labels, and what
  \<open>pick(['Right', 'Semantic'])\<close> returns on it.
\<close>

definition cond_lr :: "(string \<times> int) list" where
  "cond_lr = [(''Physical/Left'', 1), (''Physical/Right'', 2), (''Semantic/Left'', 3)]"

definition run_e :: Epochs where
  "run_e =
     \<lparr>ep_events = [\<lparr>onset = 10, duration = 0, label = 1\<rparr>, \<lparr>onset = 20, duration = 0, label = 2\<rparr>,
                   \<lparr>onset = 30, duration = 0, label = 3\<rparr>],
      ep_event_id = cond_lr,
      ep_info = 0,
      ep_times = [-1, 0, 1],
      ep_data = \<lparr>shape1 = 1, shape2 = 3,
                 arr = [[[Some 1, Some 3, None]], [[Some 2, Some 2, Some 5]],
                        [[Some 4, Some 6, Some 8]]]\<rparr>\<rparr>"

definition run_e_rs :: Epochs where
  "run_e_rs =
     \<lparr>ep_events = [\<lparr>onset = 20, duration = 0, label = 2\<rparr>, \<lparr>onset = 30, duration = 0, label = 3\<rparr>],
      ep_event_id = [(''Physical/Right'', 2), (''Semantic/Left'', 3)],
      ep_info = 0,
      ep_times = [-1, 0, 1],
      ep_data = \<lparr>shape1 = 1, shape2 = 3,
                 arr = [[[Some 2, Some 2, Some 5]], [[Some 4, Some 6, Some 8]]]\<rparr>\<rparr>"

definition info0 :: info where
  "info0 = [''sfreq'' \<mapsto> PyFloat 1, ''tmin'' \<mapsto> PyFloat (-1), ''tmax'' \<mapsto> PyFloat 1,
            ''condition'' \<mapsto> PyNone]"

definition store0 :: store where
  "store0 = (\<lambda>a. info0)"

text \<open>
  A recording of one feature whose value at time \<open>t\<close> is \<open>t\<close>, sampled every second
  from \<open>0\<close> to \<open>9\<close>, with the info dictionary that \<open>Raw.from_array\<close> gives it, at
  address \<open>2\<close>.
\<close>

definition raw_ramp :: Raw where
  "raw_ramp =
     \<lparr>raw_data = [[Some 0, Some 1, Some 2, Some 3, Some 4, Some 5, Some 6, Some 7, Some 8, Some 9]],
      raw_times = [0, 1, 2, 3, 4, 5, 6, 7, 8, 9],
      raw_info = 2\<rparr>"

definition raw_info0 :: info where
  "raw_info0 = [''sfreq'' \<mapsto> PyFloat 1, ''feature_name'' \<mapsto> PyStr ''voxel'',
                ''value_name'' \<mapsto> PyStr ''value'']"

definition raw_store :: store where
  "raw_store = (\<lambda>a. raw_info0)"

section \<open>Properties\<close>

subsection \<open>The relative-time grid\<close>

text \<open>
  \<open>np.arange\<close> with a positive step stops just before \<open>stop\<close>, forward and backward.
\<close>

lemma arange_up_below:
  assumes "0 < step" "k < nat \<lceil>(stop - start) / step\<rceil>"
  shows "start + real k * step < stop"
proof -
  have "real k < (stop - start) / step"
    using assms(2) by (simp add: zless_nat_eq_int_zless less_ceiling_iff)
  then show ?thesis using assms(1) by (simp add: field_simps)
qed

lemma arange_up_stop:
  assumes "0 < step"
  shows "stop \<le> start + real (nat \<lceil>(stop - start) / step\<rceil>) * step"
proof -
  define n where "n = nat \<lceil>(stop - start) / step\<rceil>"
  have "(stop - start) / step \<le> real_of_int \<lceil>(stop - start) / step\<rceil>"
    by (rule le_of_int_ceiling)
  also have "\<dots> \<le> real n" unfolding n_def by simp
  finally have "stop - start \<le> real n * step"
    using assms by (simp add: pos_divide_le_eq)
  then show ?thesis unfolding n_def by simp
qed

lemma arange_down_above:
  assumes "0 < step" "k < nat \<lceil>(stop - start) / (- step)\<rceil>"
  shows "stop < start + real k * (- step)"
proof -
  have "real k < (stop - start) / (- step)"
    using assms(2) by (simp add: zless_nat_eq_int_zless less_ceiling_iff)
  then show ?thesis using assms(1) by (simp add: field_simps)
qed

lemma arange_down_stop:
  assumes "0 < step"
  shows "start + real (nat \<lceil>(stop - start) / (- step)\<rceil>) * (- step) \<le> stop"
proof -
  define x where "x = (stop - start) / (- step)"
  define n where "n = nat \<lceil>x\<rceil>"
  have "x \<le> real_of_int \<lceil>x\<rceil>"
    by (rule le_of_int_ceiling)
  also have "\<dots> \<le> real n" unfolding n_def by simp
  finally have "x * step \<le> real n * step"
    using assms by (simp add: mult_right_mono)
  moreover have "x * step = start - stop"
    unfolding x_def using assms by (simp add: field_simps)
  ultimately show ?thesis unfolding n_def x_def by simp
qed

lemma arange_forward_nonempty:
  assumes "0 < step" "start < stop"
  shows "0 < nat \<lceil>(stop - start) / step\<rceil>"
  using assms by simp

text \<open>
  Claim C2, for a positive step \<open>dt\<close> and in exact arithmetic (the bounds are those of
  the exact range: in 64-bit floats a branch can hold one sample more, equal to its
  rounded stop, see \<open>arange\<close>). If \<open>tmin < 0 < tmax\<close>, the grid of
  \<open>Epochs.__init__\<close> is a negative branch, generated backward from \<open>-dt\<close> in steps of
  \<open>dt\<close> and reversed, followed by a branch generated forward from \<open>0\<close> in steps of \<open>dt\<close>.
  The backward branch stays above \<open>tmin - dt/2\<close> and its next sample would not; the
  forward branch stays below \<open>tmax + dt/2\<close> and its next sample would not. The sample
  after the negative branch is exactly \<open>0\<close>, so \<open>0\<close> is on the grid. Otherwise the grid
  is one forward range from \<open>tmin\<close> in steps of \<open>dt\<close> that stays below \<open>tmax + dt/2\<close>
  and whose next sample would not.
\<close>

theorem Epochs_times_grid:
  assumes "0 < dt"
  shows "(tmin < 0 \<and> 0 < tmax \<longrightarrow>
            (\<exists>n m. Epochs_times tmin tmax dt =
                      rev (map (\<lambda>k. - dt - real k * dt) [0..<n]) @ map (\<lambda>k. 0 + real k * dt) [0..<m]
                  \<and> (\<forall>k<n. tmin - dt / 2 < - dt - real k * dt)
                  \<and> - dt - real n * dt \<le> tmin - dt / 2
                  \<and> (\<forall>k<m. 0 + real k * dt < tmax + dt / 2)
                  \<and> tmax + dt / 2 \<le> 0 + real m * dt
                  \<and> Epochs_times tmin tmax dt ! n = 0)
            \<and> 0 \<in> set (Epochs_times tmin tmax dt))
       \<and> (\<not> (tmin < 0 \<and> 0 < tmax) \<longrightarrow>
            (\<exists>m. Epochs_times tmin tmax dt = map (\<lambda>k. tmin + real k * dt) [0..<m]
                \<and> (\<forall>k<m. tmin + real k * dt < tmax + dt / 2)
                \<and> tmax + dt / 2 \<le> tmin + real m * dt))"
proof (intro conjI impI)
  assume split: "tmin < 0 \<and> 0 < tmax"
  define n where "n = nat \<lceil>(tmin - dt / 2 - (- dt)) / (- dt)\<rceil>"
  define m where "m = nat \<lceil>(tmax + dt / 2 - 0) / dt\<rceil>"
  have grid: "Epochs_times tmin tmax dt =
      rev (map (\<lambda>k. - dt - real k * dt) [0..<n]) @ map (\<lambda>k. 0 + real k * dt) [0..<m]"
    using split by (simp add: Epochs_times_def arange_def n_def m_def)
  have neg: "\<forall>k<n. tmin - dt / 2 < - dt - real k * dt"
    using arange_down_above [OF assms, of _ "tmin - dt / 2" "- dt"] by (simp add: n_def)
  have neg_stop: "- dt - real n * dt \<le> tmin - dt / 2"
    using arange_down_stop [OF assms, of "- dt" "tmin - dt / 2"] by (simp add: n_def)
  have pos: "\<forall>k<m. 0 + real k * dt < tmax + dt / 2"
    using arange_up_below [OF assms, of _ "tmax + dt / 2" 0] by (simp add: m_def)
  have pos_stop: "tmax + dt / 2 \<le> 0 + real m * dt"
    using arange_up_stop [OF assms, of "tmax + dt / 2" 0] by (simp add: m_def)
  have "0 < (tmax + dt / 2 - 0) / dt" using split assms by simp
  then have m_pos: "0 < m" unfolding m_def by simp
  have at_n: "Epochs_times tmin tmax dt ! n = 0"
    using m_pos by (simp add: grid nth_append)
  show "\<exists>n m. Epochs_times tmin tmax dt =
                 rev (map (\<lambda>k. - dt - real k * dt) [0..<n]) @ map (\<lambda>k. 0 + real k * dt) [0..<m]
             \<and> (\<forall>k<n. tmin - dt / 2 < - dt - real k * dt)
             \<and> - dt - real n * dt \<le> tmin - dt / 2
             \<and> (\<forall>k<m. 0 + real k * dt < tmax + dt / 2)
             \<and> tmax + dt / 2 \<le> 0 + real m * dt
             \<and> Epochs_times tmin tmax dt ! n = 0"
    using grid neg neg_stop pos pos_stop at_n by blast
  have "n < length (Epochs_times tmin tmax dt)"
    using m_pos by (simp add: grid)
  then show "0 \<in> set (Epochs_times tmin tmax dt)"
    using at_n nth_mem by metis
next
  assume other: "\<not> (tmin < 0 \<and> 0 < tmax)"
  define m where "m = nat \<lceil>(tmax + dt / 2 - tmin) / dt\<rceil>"
  have grid: "Epochs_times tmin tmax dt = map (\<lambda>k. tmin + real k * dt) [0..<m]"
    using other by (auto simp add: Epochs_times_def arange_def m_def)
  have below: "\<forall>k<m. tmin + real k * dt < tmax + dt / 2"
    using arange_up_below [OF assms, of _ "tmax + dt / 2" tmin] by (simp add: m_def)
  have stop: "tmax + dt / 2 \<le> tmin + real m * dt"
    using arange_up_stop [OF assms, of "tmax + dt / 2" tmin] by (simp add: m_def)
  show "\<exists>m. Epochs_times tmin tmax dt = map (\<lambda>k. tmin + real k * dt) [0..<m]
           \<and> (\<forall>k<m. tmin + real k * dt < tmax + dt / 2)
           \<and> tmax + dt / 2 \<le> tmin + real m * dt"
    using grid below stop by blast
qed

text \<open>The windows \<open>[-2, 6]\<close> and \<open>[0, 2]\<close> with step \<open>1\<close>.\<close>

theorem Epochs_times_grid_witness:
  "(0::real) < 1 \<and> (-2::real) < 0 \<and> (0::real) < 6
   \<and> Epochs_times (-2) 6 1 = [-2, -1, 0, 1, 2, 3, 4, 5, 6]
   \<and> 0 \<in> set (Epochs_times (-2) 6 1)
   \<and> \<not> ((0::real) < 0 \<and> (0::real) < 2)
   \<and> Epochs_times 0 2 1 = [0, 1, 2]"
  using Epochs_times_grid [of 1 "-2" 6] Epochs_times_grid [of 1 0 2]
  by (simp add: Epochs_times_def arange_def upt_conv_Cons)

text \<open>
  Claim C2 as it is stated, for every \<open>dt\<close>, fails at a negative step: with
  \<open>tmin = -1\<close>, \<open>tmax = 1\<close> and \<open>dt = -1\<close> both branches are empty and the grid has no
  sample \<open>0\<close>.
\<close>

theorem Epochs_times_negative_step:
  "(-1::real) < 0 \<and> (0::real) < 1 \<and> 0 \<notin> set (Epochs_times (-1) 1 (-1))"
  by (simp add: Epochs_times_def arange_def)

subsection \<open>Baseline correction\<close>

lemma nan_minus_None [simp]: "nan_minus v None = None"
  by (simp add: nan_minus_def split: option.splits)

lemma nan_minus_of_None [simp]: "nan_minus None b = None"
  by (simp add: nan_minus_def)

lemma nan_minus_zero [simp]: "nan_minus v (Some 0) = v"
  by (simp add: nan_minus_def split: option.splits)

lemma not_nan_shift:
  "not_nan (map (\<lambda>v. nan_minus v (Some c)) xs) = map (\<lambda>y. y - c) (not_nan xs)"
  by (induction xs) (auto simp: not_nan_def nan_minus_def split: option.splits)

lemma not_nan_all_nan: "not_nan (map (\<lambda>v. None) xs) = []"
  by (simp add: not_nan_def)

lemma sum_list_shift: "sum_list (map (\<lambda>y. y - c) ys) = sum_list ys - real (length ys) * (c::real)"
  by (induction ys) (simp_all add: algebra_simps)

lemma nanmean_shift:
  "nanmean (map (\<lambda>v. nan_minus v (Some c)) xs) = map_option (\<lambda>m. m - c) (nanmean xs)"
  by (simp add: nanmean_def Let_def not_nan_shift sum_list_shift diff_divide_distrib)

lemma nanmean_centred:
  "nanmean (map (\<lambda>v. nan_minus v (nanmean xs)) xs) = map_option (\<lambda>m. 0) (nanmean xs)"
proof (cases "nanmean xs")
  case None
  then show ?thesis by (simp add: nanmean_def not_nan_all_nan)
next
  case (Some m)
  then show ?thesis by (simp add: nanmean_shift)
qed

lemma mask_map:
  "map snd (filter fst (zip m (map f x))) = map f (map snd (filter fst (zip m x)))"
proof (induction m arbitrary: x)
  case Nil
  then show ?case by simp
next
  case (Cons b m)
  then show ?case by (cases x) simp_all
qed

lemma corr_all_idem:
  "map (\<lambda>v. nan_minus v (nanmean (map (\<lambda>v. nan_minus v (nanmean x)) x))) (map (\<lambda>v. nan_minus v (nanmean x)) x)
   = map (\<lambda>v. nan_minus v (nanmean x)) x"
proof (cases "nanmean x")
  case None
  then show ?thesis by simp
next
  case (Some m)
  then show ?thesis using nanmean_centred [of x] by simp
qed

lemma corr_win_idem:
  fixes sel :: "bool list" and x :: "npfloat list"
  defines "g \<equiv> (\<lambda>x. map (\<lambda>v. nan_minus v (nanmean (map snd (filter fst (zip sel x))))) x)"
  shows "g (g x) = g x"
proof -
  define c where "c = nanmean (map snd (filter fst (zip sel x)))"
  have gx: "g x = map (\<lambda>v. nan_minus v c) x" by (simp add: g_def c_def)
  have "nanmean (map snd (filter fst (zip sel (g x)))) = map_option (\<lambda>m. 0) c"
    unfolding gx mask_map c_def by (rule nanmean_centred)
  then have "g (g x) = map (\<lambda>v. nan_minus v (map_option (\<lambda>m. 0) c)) (g x)"
    by (simp add: g_def)
  also have "\<dots> = g x"
    by (cases c) (simp_all add: gx)
  finally show ?thesis .
qed

lemma create_base_corr_func_idem:
  assumes "create_base_corr_func ts b = Inr (Some f)" "f n = Inr g"
  shows "g (g x) = g x"
proof (cases "case b of BaselinePyNone \<Rightarrow> BaselineStr ''none'' | b \<Rightarrow> b")
  case BaselinePyNone
  then show ?thesis by (cases b) simp_all
next
  case (BaselineStr s)
  then show ?thesis
    using assms corr_all_idem
    by (auto simp: create_base_corr_func_def split: if_splits)
next
  case (BaselineWin lo hi)
  then show ?thesis
    using assms corr_win_idem
    by (auto simp: create_base_corr_func_def Let_def split: if_splits)
qed

text \<open>
  Claim C5. Whenever \<open>apply_baseline(B)\<close> returns on a collection, for a baseline \<open>B\<close>
  that is \<open>none\<close>, \<open>all\<close> or a window, \<open>apply_baseline(B)\<close> on the result returns as
  well, with the same data tensor: in exact arithmetic a second correction subtracts a
  mean of zero, and a row whose baseline mean is NaN is NaN already.
\<close>

theorem apply_baseline_twice:
  assumes "apply_baseline self b st = (Inr once, st1)"
  shows "\<exists>twice st2. apply_baseline once b st1 = (Inr twice, st2) \<and> ep_data twice = ep_data once"
proof -
  from assms obtain f g where
    f: "create_base_corr_func (ep_times self) b = Inr (Some f)" and
    g: "f (shape2 (ep_data self)) = Inr g" and
    once: "once = self\<lparr>ep_data := (ep_data self)\<lparr>arr := map (map g) (arr (ep_data self))\<rparr>\<rparr>"
    by (auto simp: apply_baseline_def call_base_corr_def split: sum.splits option.splits)
  have idem: "\<And>x. g (g x) = g x"
    using create_base_corr_func_idem [OF f g] .
  have "call_base_corr (Some f) (ep_data once) = Inr (ep_data once)"
    by (simp add: call_base_corr_def once g idem)
  then show ?thesis
    by (simp add: apply_baseline_def once f)
qed

text \<open>Run A with the window \<open>(-1, 0)\<close>: the rows \<open>1, 3, NaN\<close> and \<open>2, 2, 5\<close> lose the means \<open>2\<close> and \<open>2\<close>.\<close>

theorem apply_baseline_twice_witness:
  "apply_baseline run_a (BaselineWin (Some (-1)) (Some 0)) store0
     = (Inr (run_a\<lparr>ep_data := \<lparr>shape1 = 1, shape2 = 3,
                                  arr = [[[Some (-1), Some 1, None]], [[Some 0, Some 0, Some 3]]]\<rparr>\<rparr>),
        store0(0 := info0(''baseline'' \<mapsto> PyBaseline (BaselineWin (Some (-1)) (Some 0)))))
   \<and> (\<exists>twice st2.
         apply_baseline
           (run_a\<lparr>ep_data := \<lparr>shape1 = 1, shape2 = 3,
                                arr = [[[Some (-1), Some 1, None]], [[Some 0, Some 0, Some 3]]]\<rparr>\<rparr>)
           (BaselineWin (Some (-1)) (Some 0))
           (store0(0 := info0(''baseline'' \<mapsto> PyBaseline (BaselineWin (Some (-1)) (Some 0)))))
           = (Inr twice, st2)
         \<and> ep_data twice = \<lparr>shape1 = 1, shape2 = 3,
                              arr = [[[Some (-1), Some 1, None]], [[Some 0, Some 0, Some 3]]]\<rparr>)"
proof -
  have once:
    "apply_baseline run_a (BaselineWin (Some (-1)) (Some 0)) store0
       = (Inr (run_a\<lparr>ep_data := \<lparr>shape1 = 1, shape2 = 3,
                                    arr = [[[Some (-1), Some 1, None]], [[Some 0, Some 0, Some 3]]]\<rparr>\<rparr>),
          store0(0 := info0(''baseline'' \<mapsto> PyBaseline (BaselineWin (Some (-1)) (Some 0)))))"
    by (simp add: apply_baseline_def create_base_corr_func_def call_base_corr_def run_a_def
        store0_def nanmean_def not_nan_def nan_minus_def Let_def)
  show ?thesis
    using once apply_baseline_twice [OF once] by simp
qed

subsection \<open>Selection by name\<close>

lemma mask_filter: "map snd (filter fst (zip (map P xs) xs)) = filter P xs"
  by (induction xs) simp_all

lemma mask_rows:
  "map snd (filter fst (zip (map P es) rows)) = map fst (filter (\<lambda>(row, e). P e) (zip rows es))"
proof (induction es arbitrary: rows)
  case Nil
  then show ?case by simp
next
  case (Cons e es)
  then show ?case by (cases rows) simp_all
qed

lemma matched_id_iff:
  "(\<exists>key\<in>set keys. l \<in> set (map snd (filter (\<lambda>(ev, i). set (split_on CHR ''/'' key) \<subseteq> set (split_on CHR ''/'' ev)) d)))
   \<longleftrightarrow> (\<exists>(stored, i)\<in>set d. i = l \<and> (\<exists>query\<in>set keys. name_matches query stored))"
  unfolding name_matches_def
proof (rule iffI)
  assume "\<exists>key\<in>set keys. l \<in> set (map snd (filter (\<lambda>(ev, i). set (split_on CHR ''/'' key) \<subseteq> set (split_on CHR ''/'' ev)) d))"
  then obtain key ev where "key \<in> set keys" "(ev, l) \<in> set d"
    "set (split_on CHR ''/'' key) \<subseteq> set (split_on CHR ''/'' ev)"
    by (clarsimp simp: image_iff)
  then show "\<exists>(stored, i)\<in>set d. i = l \<and> (\<exists>query\<in>set keys. set (split_on CHR ''/'' query) \<subseteq> set (split_on CHR ''/'' stored))"
    by blast
next
  assume "\<exists>(stored, i)\<in>set d. i = l \<and> (\<exists>query\<in>set keys. set (split_on CHR ''/'' query) \<subseteq> set (split_on CHR ''/'' stored))"
  then obtain key ev where "key \<in> set keys" "(ev, l) \<in> set d"
    "set (split_on CHR ''/'' key) \<subseteq> set (split_on CHR ''/'' ev)"
    by blast
  then have "l \<in> set (map snd (filter (\<lambda>(ev, i). set (split_on CHR ''/'' key) \<subseteq> set (split_on CHR ''/'' ev)) d))"
    by (force simp: image_iff)
  then show "\<exists>key\<in>set keys. l \<in> set (map snd (filter (\<lambda>(ev, i). set (split_on CHR ''/'' key) \<subseteq> set (split_on CHR ''/'' ev)) d))"
    using \<open>key \<in> set keys\<close> by blast
qed

lemma partial_match_event_mask:
  assumes "partial_match_event self ks = Inr m"
  shows "m = map (event_selected (ep_event_id self) (key_list ks)) (ep_events self)"
proof -
  define F where "F = (\<lambda>key. map (\<lambda>e. label e \<in>
      set (map snd (filter (\<lambda>(ev, i). set (split_on CHR ''/'' key) \<subseteq> set (split_on CHR ''/'' ev))
                           (ep_event_id self)))) (ep_events self))"
  have "partial_match_event self ks =
          (if map F (key_list ks) = [] then Inl ValueError
           else Inr (map (\<lambda>k. \<exists>row\<in>set (map F (key_list ks)). row ! k) [0..<length (ep_events self)]))"
    unfolding partial_match_event_def Let_def F_def by (rule refl)
  then have m: "m = map (\<lambda>k. \<exists>row\<in>set (map F (key_list ks)). row ! k) [0..<length (ep_events self)]"
    using assms by (simp split: if_splits)
  show ?thesis
  proof (rule nth_equalityI)
    show "length m = length (map (event_selected (ep_event_id self) (key_list ks)) (ep_events self))"
      by (simp add: m)
  next
    fix k assume "k < length m"
    then have k: "k < length (ep_events self)" by (simp add: m)
    have F_nth: "F key ! k \<longleftrightarrow> label (ep_events self ! k) \<in>
        set (map snd (filter (\<lambda>(ev, i). set (split_on CHR ''/'' key) \<subseteq> set (split_on CHR ''/'' ev))
                             (ep_event_id self)))" for key
      unfolding F_def using nth_map [OF k] by simp
    have "m ! k \<longleftrightarrow> (\<exists>key\<in>set (key_list ks). F key ! k)"
      using k by (simp add: m)
    also have "\<dots> \<longleftrightarrow> event_selected (ep_event_id self) (key_list ks) (ep_events self ! k)"
      unfolding event_selected_def F_nth by (rule matched_id_iff)
    finally show "m ! k = map (event_selected (ep_event_id self) (key_list ks)) (ep_events self) ! k"
      using k by simp
  qed
qed

lemma getitem_mask:
  "getitem xs (BoolArray (map P xs)) = Inr (filter P xs)"
  by (simp add: getitem_def mask_filter)

lemma pick_sel_event_keys:
  assumes "pick_sel_event self (EvKeys ks) st = (Inr sel, st1)"
  shows "sel = BoolArray (map (event_selected (ep_event_id self) (key_list ks)) (ep_events self))"
  using assms
  by (cases ks) (auto simp: pick_sel_event_def split: sum.splits if_splits dest: partial_match_event_mask)

lemma pruned_labels:
  assumes "\<forall>e\<in>set es. \<exists>(ev, i)\<in>set d. i = label e"
  shows "snd ` set (prune_event_id d es) = label ` set es"
  using assms by (force simp: prune_event_id_def)

lemma getitem_axis0_Inr:
  assumes "getitem_axis0 a ix = Inr b"
  shows "index_valid (length (arr a)) ix" "arr b = index_take (length (arr a)) ix (arr a)"
    "shape1 b = shape1 a" "shape2 b = shape2 a"
  using assms by (auto simp: getitem_axis0_def split: if_splits)

lemma getitem_axis1_Inr:
  assumes "getitem_axis1 a ix = Inr b"
  shows "index_valid (shape1 a) ix" "arr b = map (index_take (shape1 a) ix) (arr a)"
    "shape1 b = index_size (shape1 a) ix" "shape2 b = shape2 a"
  using assms by (auto simp: getitem_axis1_def split: if_splits)

lemma getitem_axis2_Inr:
  assumes "getitem_axis2 a ix = Inr b"
  shows "index_valid (shape2 a) ix" "arr b = map (map (index_take (shape2 a) ix)) (arr a)"
    "shape1 b = shape1 a" "shape2 b = index_size (shape2 a) ix"
  using assms by (auto simp: getitem_axis2_def split: if_splits)

text \<open>
  What \<open>pick\<close> returns on names, in terms of the list of names that
  \<open>_partial_match_event\<close> makes of its argument.
\<close>

lemma pick_by_keys:
  assumes "pick self (EvKeys ks) feature time st = (Inr inst, st')"
  shows "ep_events inst = filter (event_selected (ep_event_id self) (key_list ks)) (ep_events self)
       \<and> arr (ep_data inst) =
           map (\<lambda>row. map (index_take (shape2 (ep_data self)) (pick_sel_time self time))
                          (index_take (shape1 (ep_data self)) (pick_sel_feature feature) row))
               (map fst (filter (\<lambda>(row, e). event_selected (ep_event_id self) (key_list ks) e)
                                (zip (arr (ep_data self)) (ep_events self))))
       \<and> ep_event_id inst = filter (\<lambda>(ev, i). i \<in> label ` set (ep_events inst)) (ep_event_id self)
       \<and> snd ` set (ep_event_id inst) = label ` set (ep_events inst)"
proof -
  let ?P = "event_selected (ep_event_id self) (key_list ks)"
  from assms obtain sel st1 where sel: "pick_sel_event self (EvKeys ks) st = (Inr sel, st1)"
    by (auto simp: pick_def split: prod.splits sum.splits)
  have sel_eq: "sel = BoolArray (map ?P (ep_events self))"
    using pick_sel_event_keys [OF sel] .
  have ev: "ep_events inst = filter ?P (ep_events self)"
    and eid: "ep_event_id inst = prune_event_id (ep_event_id self) (ep_events inst)"
    using assms sel
    by (auto simp: pick_def Let_def sel_eq getitem_mask split: sum.splits if_splits)
  from assms sel obtain d0 d1 where
    d0: "getitem_axis0 (ep_data self) sel = Inr d0" and
    d1: "getitem_axis1 d0 (pick_sel_feature feature) = Inr d1" and
    d2: "getitem_axis2 d1 (pick_sel_time self time) = Inr (ep_data inst)"
    by (auto simp: pick_def Let_def pick_sel_feature_def split: sum.splits if_splits)
  have rows0: "arr d0 = map fst (filter (\<lambda>(row, e). ?P e) (zip (arr (ep_data self)) (ep_events self)))"
    using getitem_axis0_Inr(2) [OF d0] by (simp add: sel_eq mask_rows)
  have rows1: "arr d1 = map (index_take (shape1 (ep_data self)) (pick_sel_feature feature)) (arr d0)"
    using getitem_axis1_Inr(2) [OF d1] getitem_axis0_Inr(3) [OF d0] by simp
  have rows2: "arr (ep_data inst) = map (map (index_take (shape2 (ep_data self)) (pick_sel_time self time))) (arr d1)"
    using getitem_axis2_Inr(2) [OF d2] getitem_axis1_Inr(4) [OF d1] getitem_axis0_Inr(4) [OF d0] by simp
  have rows: "arr (ep_data inst) =
           map (\<lambda>row. map (index_take (shape2 (ep_data self)) (pick_sel_time self time))
                          (index_take (shape1 (ep_data self)) (pick_sel_feature feature) row))
               (map fst (filter (\<lambda>(row, e). ?P e) (zip (arr (ep_data self)) (ep_events self))))"
    unfolding rows2 rows1 rows0 by simp
  have "\<forall>e\<in>set (ep_events inst). \<exists>(ev, i)\<in>set (ep_event_id self). i = label e"
    unfolding ev by (auto simp: event_selected_def)
  then have "snd ` set (ep_event_id inst) = label ` set (ep_events inst)"
    unfolding eid by (rule pruned_labels)
  then show ?thesis
    using ev eid rows by (simp add: prune_event_id_def)
qed

text \<open>
  Claim C3. When \<open>pick\<close> is given one name \<open>s\<close>, the query names are \<open>[s]\<close>; when it
  is given a list \<open>ss\<close> of names, they are all the names of \<open>ss\<close>. When \<open>pick\<close> returns,
  the events of the result are exactly the events of the source, in their order, whose
  label has a stored name that some query name matches: the tokens of the query, split
  on \<open>/\<close>, are among the tokens of the stored name, in any order; an event is kept when
  one query name matches, whatever the others do. The data rows of the result are the
  rows of those events (cut to the selected features and times). The dictionary of the
  result keeps exactly the entries whose label occurs in the filtered events, and every
  label of the filtered events has an entry.
\<close>

theorem pick_by_name:
  "(pick self (EvKeys (Key s)) feature time st = (Inr inst, st') \<longrightarrow>
      ep_events inst = filter (event_selected (ep_event_id self) [s]) (ep_events self)
      \<and> arr (ep_data inst) =
           map (\<lambda>row. map (index_take (shape2 (ep_data self)) (pick_sel_time self time))
                          (index_take (shape1 (ep_data self)) (pick_sel_feature feature) row))
               (map fst (filter (\<lambda>(row, e). event_selected (ep_event_id self) [s] e)
                                (zip (arr (ep_data self)) (ep_events self))))
      \<and> ep_event_id inst = filter (\<lambda>(ev, i). i \<in> label ` set (ep_events inst)) (ep_event_id self)
      \<and> snd ` set (ep_event_id inst) = label ` set (ep_events inst))
   \<and> (pick self (EvKeys (Keys ss)) feature time st = (Inr inst, st') \<longrightarrow>
      ep_events inst = filter (event_selected (ep_event_id self) ss) (ep_events self)
      \<and> arr (ep_data inst) =
           map (\<lambda>row. map (index_take (shape2 (ep_data self)) (pick_sel_time self time))
                          (index_take (shape1 (ep_data self)) (pick_sel_feature feature) row))
               (map fst (filter (\<lambda>(row, e). event_selected (ep_event_id self) ss e)
                                (zip (arr (ep_data self)) (ep_events self))))
      \<and> ep_event_id inst = filter (\<lambda>(ev, i). i \<in> label ` set (ep_events inst)) (ep_event_id self)
      \<and> snd ` set (ep_event_id inst) = label ` set (ep_events inst))"
proof (intro conjI impI)
  assume run: "pick self (EvKeys (Key s)) feature time st = (Inr inst, st')"
  have queries: "key_list (Key s) = [s]"
    by (simp add: key_list_def)
  show "ep_events inst = filter (event_selected (ep_event_id self) [s]) (ep_events self)"
    and "arr (ep_data inst) =
           map (\<lambda>row. map (index_take (shape2 (ep_data self)) (pick_sel_time self time))
                          (index_take (shape1 (ep_data self)) (pick_sel_feature feature) row))
               (map fst (filter (\<lambda>(row, e). event_selected (ep_event_id self) [s] e)
                                (zip (arr (ep_data self)) (ep_events self))))"
    and "ep_event_id inst = filter (\<lambda>(ev, i). i \<in> label ` set (ep_events inst)) (ep_event_id self)"
    and "snd ` set (ep_event_id inst) = label ` set (ep_events inst)"
    using pick_by_keys [OF run] unfolding queries by blast+
next
  assume run: "pick self (EvKeys (Keys ss)) feature time st = (Inr inst, st')"
  have queries: "key_list (Keys ss) = ss"
    by (simp add: key_list_def)
  show "ep_events inst = filter (event_selected (ep_event_id self) ss) (ep_events self)"
    and "arr (ep_data inst) =
           map (\<lambda>row. map (index_take (shape2 (ep_data self)) (pick_sel_time self time))
                          (index_take (shape1 (ep_data self)) (pick_sel_feature feature) row))
               (map fst (filter (\<lambda>(row, e). event_selected (ep_event_id self) ss e)
                                (zip (arr (ep_data self)) (ep_events self))))"
    and "ep_event_id inst = filter (\<lambda>(ev, i). i \<in> label ` set (ep_events inst)) (ep_event_id self)"
    and "snd ` set (ep_event_id inst) = label ` set (ep_events inst)"
    using pick_by_keys [OF run] unfolding queries by blast+
qed

text \<open>
  Run A and the single name \<open>X\<close>: the event at \<open>10\<close> stays, under \<open>Cond/X\<close>. Run E and
  the two names \<open>Right\<close> and \<open>Semantic\<close>: the events at \<open>20\<close> and \<open>30\<close> stay, one for
  each name, under \<open>Physical/Right\<close> and \<open>Semantic/Left\<close>; the first name alone keeps
  the event at \<open>20\<close> only, and no stored name holds both.
\<close>

theorem pick_by_name_witness:
  "fst (pick run_a (EvKeys (Key ''X'')) None TmNone store0) = Inr run_a_x
   \<and> ep_events run_a_x = filter (event_selected (ep_event_id run_a) [''X'']) (ep_events run_a)
   \<and> snd ` set (ep_event_id run_a_x) = label ` set (ep_events run_a_x)
   \<and> fst (pick run_e (EvKeys (Keys [''Right'', ''Semantic''])) None TmNone store0) = Inr run_e_rs
   \<and> ep_events run_e_rs
       = filter (event_selected (ep_event_id run_e) [''Right'', ''Semantic'']) (ep_events run_e)
   \<and> snd ` set (ep_event_id run_e_rs) = label ` set (ep_events run_e_rs)
   \<and> filter (event_selected (ep_event_id run_e) [''Right'']) (ep_events run_e)
       = [\<lparr>onset = 20, duration = 0, label = 2\<rparr>]
   \<and> filter (event_selected (ep_event_id run_e) [''Right/Semantic'']) (ep_events run_e) = []"
proof -
  have one: "fst (pick run_a (EvKeys (Key ''X'')) None TmNone store0) = Inr run_a_x"
    by (simp add: pick_def pick_sel_event_def partial_match_event_def key_list_def getitem_def
        getitem_axis0_def getitem_axis1_def getitem_axis2_def prune_event_id_def
        pick_sel_time_def pick_sel_feature_def run_a_def run_a_x_def cond_xy_def store0_def
        Let_def upt_conv_Cons)
  then have run_one: "pick run_a (EvKeys (Key ''X'')) None TmNone store0
     = (Inr run_a_x, snd (pick run_a (EvKeys (Key ''X'')) None TmNone store0))"
    by (metis prod.collapse)
  have two: "fst (pick run_e (EvKeys (Keys [''Right'', ''Semantic''])) None TmNone store0) = Inr run_e_rs"
    by (simp add: pick_def pick_sel_event_def partial_match_event_def key_list_def getitem_def
        getitem_axis0_def getitem_axis1_def getitem_axis2_def prune_event_id_def
        pick_sel_time_def pick_sel_feature_def run_e_def run_e_rs_def cond_lr_def store0_def
        Let_def upt_conv_Cons)
  then have run_two: "pick run_e (EvKeys (Keys [''Right'', ''Semantic''])) None TmNone store0
     = (Inr run_e_rs, snd (pick run_e (EvKeys (Keys [''Right'', ''Semantic''])) None TmNone store0))"
    by (metis prod.collapse)
  have first_only: "filter (event_selected (ep_event_id run_e) [''Right'']) (ep_events run_e)
       = [\<lparr>onset = 20, duration = 0, label = 2\<rparr>]"
    and both: "filter (event_selected (ep_event_id run_e) [''Right/Semantic'']) (ep_events run_e) = []"
    by (simp_all add: event_selected_def name_matches_def run_e_def cond_lr_def)
  have a: "ep_events run_a_x = filter (event_selected (ep_event_id run_a) [''X'']) (ep_events run_a)
      \<and> snd ` set (ep_event_id run_a_x) = label ` set (ep_events run_a_x)"
    using run_one
      pick_by_name [where self = run_a and s = "''X''" and feature = None and time = TmNone
        and st = store0 and inst = run_a_x
        and st' = "snd (pick run_a (EvKeys (Key ''X'')) None TmNone store0)"]
    by blast
  have e: "ep_events run_e_rs
       = filter (event_selected (ep_event_id run_e) [''Right'', ''Semantic'']) (ep_events run_e)
      \<and> snd ` set (ep_event_id run_e_rs) = label ` set (ep_events run_e_rs)"
    using run_two
      pick_by_name [where self = run_e and ss = "[''Right'', ''Semantic'']" and feature = None
        and time = TmNone and st = store0 and inst = run_e_rs
        and st' = "snd (pick run_e (EvKeys (Keys [''Right'', ''Semantic''])) None TmNone store0)"]
    by blast
  show ?thesis
    using one two a e first_only both by blast
qed

subsection \<open>The constructor and the info dictionary\<close>

text \<open>
  Claim C10. When \<open>Epochs(raw, events, ...)\<close> returns, the new object holds the very
  info dictionary of the recording, and that dictionary has been written in place: the
  entry \<open>sfreq\<close> is now \<open>1 / dt\<close>, and the keys \<open>tmin\<close>, \<open>tmax\<close>, \<open>baseline\<close>,
  \<open>interp\<close>, \<open>hamm\<close>, \<open>conditions\<close> and \<open>condition\<close> are there with the values of
  lines 268 to 276; nothing else of the dictionary changes its set of keys.
\<close>

theorem Epochs_init_aliases_info:
  assumes "Epochs_init ext raw events event_id tmin tmax baseline dt interp hamm conds st = (Inr ep, st')"
  shows "ep_info ep = raw_info raw
       \<and> st' (raw_info raw) ''sfreq'' = Some (PyFloat (1 / dt))
       \<and> st' (raw_info raw) ''tmin'' = Some (PyFloat tmin)
       \<and> st' (raw_info raw) ''tmax'' = Some (PyFloat tmax)
       \<and> st' (raw_info raw) ''baseline'' = Some (PyBaseline baseline)
       \<and> st' (raw_info raw) ''interp'' = Some (PyStr interp)
       \<and> st' (raw_info raw) ''hamm'' \<noteq> None
       \<and> st' (raw_info raw) ''conditions'' \<noteq> None
       \<and> st' (raw_info raw) ''condition'' = Some PyNone
       \<and> dom (st' (raw_info raw)) =
           dom (st (raw_info raw)) \<union> {''sfreq'', ''tmin'', ''tmax'', ''baseline'', ''interp'', ''hamm'',
                                      ''conditions'', ''condition''}"
proof -
  define st1 where "st1 = st(raw_info raw := (st (raw_info raw))
                   (''sfreq'' \<mapsto> PyFloat (1 / dt),
                    ''tmin'' \<mapsto> PyFloat tmin,
                    ''tmax'' \<mapsto> PyFloat tmax,
                    ''baseline'' \<mapsto> PyBaseline baseline,
                    ''interp'' \<mapsto> PyStr interp,
                    ''hamm'' \<mapsto> (case hamm of None \<Rightarrow> PyNone | Some h \<Rightarrow> PyInt (int h)),
                    ''conditions'' \<mapsto> (case conds of
                                         CondNone \<Rightarrow> PyNone
                                       | CondStr c \<Rightarrow> PyStrList (split_on CHR ''/'' c)
                                       | CondList cs \<Rightarrow> PyStrList cs),
                    ''condition'' \<mapsto> PyNone))"
  have "ep_info ep = raw_info raw \<and> st' = st1"
    using assms unfolding Epochs_init_def Let_def st1_def
    by (auto split: if_splits sum.splits)
  then show ?thesis
    unfolding st1_def by auto
qed

text \<open>The ramp recording, one event at \<open>5\<close>, the window \<open>[-2, 2]\<close> and \<open>dt = 1/2\<close>.\<close>

theorem Epochs_init_aliases_info_witness:
  "fst (Epochs_init linear_externals raw_ramp [\<lparr>onset = 5, duration = 0, label = 1\<rparr>]
          (Some [(''A'', 1)]) (-2) 2 (BaselineStr ''none'') (1 / 2) ''linear'' None CondNone raw_store)
     = Inr \<lparr>ep_events = [\<lparr>onset = 5, duration = 0, label = 1\<rparr>], ep_event_id = [(''A'', 1)],
            ep_info = 2, ep_times = [-2, -3 / 2, -1, -1 / 2, 0, 1 / 2, 1, 3 / 2, 2],
            ep_data = \<lparr>shape1 = 1, shape2 = 9,
                       arr = [[[Some 3, Some (7 / 2), Some 4, Some (9 / 2), Some 5, Some (11 / 2),
                                Some 6, Some (13 / 2), Some 7]]]\<rparr>\<rparr>
   \<and> raw_store (raw_info raw_ramp) ''sfreq'' = Some (PyFloat 1)
   \<and> snd (Epochs_init linear_externals raw_ramp [\<lparr>onset = 5, duration = 0, label = 1\<rparr>]
          (Some [(''A'', 1)]) (-2) 2 (BaselineStr ''none'') (1 / 2) ''linear'' None CondNone raw_store)
         (raw_info raw_ramp) ''sfreq'' = Some (PyFloat (1 / (1 / 2)))"
proof -
  let ?run = "Epochs_init linear_externals raw_ramp [\<lparr>onset = 5, duration = 0, label = 1\<rparr>]
          (Some [(''A'', 1)]) (-2) 2 (BaselineStr ''none'') (1 / 2) ''linear'' None CondNone raw_store"
  let ?ep = "\<lparr>ep_events = [\<lparr>onset = 5, duration = 0, label = 1\<rparr>], ep_event_id = [(''A'', 1)],
            ep_info = 2, ep_times = [-2, -3 / 2, -1, -1 / 2, 0, 1 / 2, 1, 3 / 2, 2],
            ep_data = \<lparr>shape1 = 1, shape2 = 9,
                       arr = [[[Some 3, Some (7 / 2), Some 4, Some (9 / 2), Some 5, Some (11 / 2),
                                Some 6, Some (13 / 2), Some 7]]]\<rparr>\<rparr>"
  have res: "fst ?run = Inr ?ep"
    by (simp add: Epochs_init_def Let_def linear_externals_def raw_ramp_def Epochs_times_def
        arange_def create_base_corr_func_def lower_def lower_char_def epoch_at_def upt_conv_Cons)
  then have run: "?run = (Inr ?ep, snd ?run)"
    by (metis prod.collapse)
  have "raw_store (raw_info raw_ramp) ''sfreq'' = Some (PyFloat 1)"
    by (simp add: raw_store_def raw_info0_def)
  then show ?thesis
    using res Epochs_init_aliases_info [OF run] by blast
qed

subsection \<open>The epoch at relative time zero\<close>

text \<open>
  When the window starts a whole number \<open>n\<close> of steps before the onset, the range that
  line 287 samples and the grid of line 277 have the same length, and sample \<open>n\<close> of
  both is the onset: with no baseline the value of every epoch at the grid sample \<open>0\<close>
  is the interpolant at the onset of its event, for every feature.
\<close>

lemma for_each_nth:
  "for_each body xs = Inr ys \<Longrightarrow> k < length xs \<Longrightarrow> body (xs ! k) = Inr (ys ! k)"
proof (induction xs arbitrary: ys k)
  case Nil
  then show ?case by simp
next
  case (Cons x xs)
  then show ?case
    by (cases k) (auto split: sum.splits)
qed

lemma length_arange: "length (arange a b s) = nat \<lceil>(b - a) / s\<rceil>"
  by (simp add: arange_def)

lemma aligned_lengths:
  assumes dt: "0 < dt" and tmin: "tmin = - real n * dt" and tmax: "0 < tmax"
  shows "length (arange (t + tmin) (t + tmax + dt / 2) dt) = length (Epochs_times tmin tmax dt)"
    and "n < length (Epochs_times tmin tmax dt)"
    and "Epochs_times tmin tmax dt ! n = 0"
proof -
  define m where "m = nat \<lceil>(tmax + dt / 2) / dt\<rceil>"
  have "0 < (tmax + dt / 2) / dt" using dt tmax by simp
  then have m_pos: "0 < m" unfolding m_def by simp
  have "(t + tmax + dt / 2 - (t + tmin)) / dt = (tmax + dt / 2) / dt + real_of_int (int n)"
    using dt by (simp add: tmin field_simps)
  then have "\<lceil>(t + tmax + dt / 2 - (t + tmin)) / dt\<rceil> = \<lceil>(tmax + dt / 2) / dt\<rceil> + int n"
    by (simp only: ceiling_add_of_int)
  moreover have "0 \<le> \<lceil>(tmax + dt / 2) / dt\<rceil>"
    using \<open>0 < (tmax + dt / 2) / dt\<close> by (simp add: less_imp_le)
  ultimately have samples: "length (arange (t + tmin) (t + tmax + dt / 2) dt) = m + n"
    by (simp add: length_arange m_def nat_add_distrib)
  have grid: "length (Epochs_times tmin tmax dt) = m + n \<and> Epochs_times tmin tmax dt ! n = 0"
  proof (cases "n = 0")
    case True
    then have "Epochs_times tmin tmax dt = arange 0 (tmax + dt / 2) dt"
      by (simp add: Epochs_times_def tmin)
    then show ?thesis
      using True m_pos by (simp add: arange_def m_def)
  next
    case False
    then have neg: "tmin < 0" using dt by (simp add: tmin)
    have "(tmin - dt / 2 - (- dt)) / (- dt) = real n - 1 / 2"
      using dt by (simp add: tmin field_simps)
    moreover have "\<lceil>real n - 1 / 2\<rceil> = int n"
      by (rule ceiling_unique) simp_all
    ultimately have backward: "length (arange (- dt) (tmin - dt / 2) (- dt)) = n"
      by (simp add: length_arange)
    have "Epochs_times tmin tmax dt
        = rev (arange (- dt) (tmin - dt / 2) (- dt)) @ arange 0 (tmax + dt / 2) dt"
      using neg tmax by (simp add: Epochs_times_def)
    moreover have "length (arange 0 (tmax + dt / 2) dt) = m" "arange 0 (tmax + dt / 2) dt ! 0 = 0"
      using m_pos by (simp_all add: arange_def m_def)
    ultimately show ?thesis
      using backward by (simp add: nth_append)
  qed
  show "length (arange (t + tmin) (t + tmax + dt / 2) dt) = length (Epochs_times tmin tmax dt)"
    using samples grid by simp
  show "n < length (Epochs_times tmin tmax dt)"
    using grid m_pos by simp
  show "Epochs_times tmin tmax dt ! n = 0"
    using grid by simp
qed

theorem epoch_at_zero_aligned:
  assumes dt: "0 < dt" and tmin: "tmin = - real n * dt" and tmax: "0 < tmax"
    and none: "baseline = BaselinePyNone \<or> baseline = BaselineStr ''none''"
    and smooth: "(case hamm of None \<Rightarrow> Inr (raw_data raw) | Some h \<Rightarrow> filtfilt_hamming ext h (raw_data raw)) = Inr x"
    and interp: "interp1d ext (raw_times raw) x interp = Inr f"
    and run: "Epochs_init ext raw events event_id tmin tmax baseline dt interp hamm conds st = (Inr ep, st')"
    and k: "k < length events" and j: "j < length (raw_data raw)"
  shows "ep_times ep ! n = 0 \<and> arr (ep_data ep) ! k ! j ! n = f j (onset (events ! k))"
proof -
  let ?T = "length (Epochs_times tmin tmax dt)"
  let ?nf = "length (raw_data raw)"
  have bc: "create_base_corr_func (Epochs_times tmin tmax dt) baseline = Inr (Some (\<lambda>n. Inr (\<lambda>x. x)))"
    using none by (auto simp: create_base_corr_func_def lower_def lower_char_def)
  have rows: "for_each (epoch_at f (Some (\<lambda>n. Inr (\<lambda>x. x))) ?nf ?T tmin tmax dt) (map onset events)
                = Inr (arr (ep_data ep))"
    and times': "ep_times ep = Epochs_times tmin tmax dt"
    using run dt smooth interp bc
    by (auto simp: Epochs_init_def Let_def split: sum.splits)
  let ?t = "onset (events ! k)"
  let ?samples = "arange (?t + tmin) (?t + tmax + dt / 2) dt"
  have len: "length ?samples = ?T" "n < ?T" "Epochs_times tmin tmax dt ! n = 0"
    using aligned_lengths [OF dt tmin tmax] by simp_all
  have "epoch_at f (Some (\<lambda>n. Inr (\<lambda>x. x))) ?nf ?T tmin tmax dt ?t = Inr (arr (ep_data ep) ! k)"
    using for_each_nth [OF rows, of k] k by simp
  then have row: "arr (ep_data ep) ! k = map (\<lambda>j. map (f j) ?samples) [0..<?nf]"
    using len(1) by (simp add: epoch_at_def Let_def)
  have n: "n < length ?samples"
    using len(1,2) by simp
  then have "?samples ! n = ?t + tmin + real n * dt"
    by (simp add: arange_def)
  then have "?samples ! n = ?t"
    by (simp add: tmin)
  then have "arr (ep_data ep) ! k ! j ! n = f j ?t"
    using j n by (simp add: row)
  then show ?thesis
    using len(3) times' by simp
qed

text \<open>The ramp recording, one event at \<open>5\<close>, the window \<open>[-2, 2]\<close> and \<open>dt = 1/2\<close>: \<open>n = 4\<close>.\<close>

theorem epoch_at_zero_aligned_witness:
  "(0::real) < 1 / 2 \<and> (-2::real) = - real 4 * (1 / 2) \<and> (0::real) < 2
   \<and> fst (Epochs_init linear_externals raw_ramp [\<lparr>onset = 5, duration = 0, label = 1\<rparr>]
          (Some [(''A'', 1)]) (-2) 2 (BaselineStr ''none'') (1 / 2) ''linear'' None CondNone raw_store)
     = Inr \<lparr>ep_events = [\<lparr>onset = 5, duration = 0, label = 1\<rparr>], ep_event_id = [(''A'', 1)],
            ep_info = 2, ep_times = [-2, -3 / 2, -1, -1 / 2, 0, 1 / 2, 1, 3 / 2, 2],
            ep_data = \<lparr>shape1 = 1, shape2 = 9,
                       arr = [[[Some 3, Some (7 / 2), Some 4, Some (9 / 2), Some 5, Some (11 / 2),
                                Some 6, Some (13 / 2), Some 7]]]\<rparr>\<rparr>
   \<and> [-2, -3 / 2, -1, -1 / 2, 0, 1 / 2, 1, 3 / 2, 2 :: real] ! 4 = 0
   \<and> [[[Some 3, Some (7 / 2), Some 4, Some (9 / 2), Some 5, Some (11 / 2),
          Some 6, Some (13 / 2), Some (7::real)]]] ! 0 ! 0 ! 4
       = linear_interp (raw_times raw_ramp) (raw_data raw_ramp ! 0) 5"
proof -
  let ?run = "Epochs_init linear_externals raw_ramp [\<lparr>onset = 5, duration = 0, label = 1\<rparr>]
          (Some [(''A'', 1)]) (-2) 2 (BaselineStr ''none'') (1 / 2) ''linear'' None CondNone raw_store"
  let ?ep = "\<lparr>ep_events = [\<lparr>onset = 5, duration = 0, label = 1\<rparr>], ep_event_id = [(''A'', 1)],
            ep_info = 2, ep_times = [-2, -3 / 2, -1, -1 / 2, 0, 1 / 2, 1, 3 / 2, 2],
            ep_data = \<lparr>shape1 = 1, shape2 = 9,
                       arr = [[[Some 3, Some (7 / 2), Some 4, Some (9 / 2), Some 5, Some (11 / 2),
                                Some 6, Some (13 / 2), Some 7]]]\<rparr>\<rparr>"
  have res: "fst ?run = Inr ?ep"
    by (simp add: Epochs_init_def Let_def linear_externals_def raw_ramp_def Epochs_times_def
        arange_def create_base_corr_func_def lower_def lower_char_def epoch_at_def upt_conv_Cons)
  then have run: "?run = (Inr ?ep, snd ?run)"
    by (metis prod.collapse)
  have smooth: "(case None of None \<Rightarrow> Inr (raw_data raw_ramp)
                 | Some h \<Rightarrow> filtfilt_hamming linear_externals h (raw_data raw_ramp))
                = Inr (raw_data raw_ramp)"
    by simp
  have interp: "interp1d linear_externals (raw_times raw_ramp) (raw_data raw_ramp) ''linear''
       = Inr (\<lambda>j. linear_interp (raw_times raw_ramp) (raw_data raw_ramp ! j))"
    by (simp add: linear_externals_def raw_ramp_def)
  have "ep_times ?ep ! 4 = 0
      \<and> arr (ep_data ?ep) ! 0 ! 0 ! 4
          = linear_interp (raw_times raw_ramp) (raw_data raw_ramp ! 0)
              (onset ([\<lparr>onset = 5, duration = 0, label = 1\<rparr>] ! 0))"
    by (rule epoch_at_zero_aligned [where n = 4 and dt = "1 / 2" and tmax = 2, OF _ _ _ _ smooth interp run])
       (simp_all add: raw_ramp_def)
  then show ?thesis
    using res by simp
qed

text \<open>
  Claim C1 where the window does not start a whole number of steps before the onset:
  the ramp recording, with one event at onset \<open>5\<close> (strictly inside the
  recording, from \<open>0\<close> to \<open>9\<close>), no baseline, \<open>dt = 1\<close> and the window \<open>[-3/2, 2]\<close>. The
  grid of line 277 is \<open>-1, 0, 1, 2\<close>, but line 287 samples the interpolant from
  \<open>onset + tmin\<close> on, at \<open>7/2, 9/2, 11/2, 13/2\<close>. The value of the epoch at the grid
  sample \<open>0\<close> is \<open>9/2\<close>, the interpolant at \<open>onset - 1/2\<close>; the interpolant at the onset
  is \<open>5\<close>.
\<close>

theorem epoch_at_zero_misaligned:
  "fst (Epochs_init linear_externals raw_ramp [\<lparr>onset = 5, duration = 0, label = 1\<rparr>]
          (Some [(''A'', 1)]) (-3 / 2) 2 (BaselineStr ''none'') 1 ''linear'' None CondNone raw_store)
     = Inr \<lparr>ep_events = [\<lparr>onset = 5, duration = 0, label = 1\<rparr>], ep_event_id = [(''A'', 1)],
            ep_info = 2, ep_times = [-1, 0, 1, 2],
            ep_data = \<lparr>shape1 = 1, shape2 = 4,
                       arr = [[[Some (7 / 2), Some (9 / 2), Some (11 / 2), Some (13 / 2)]]]\<rparr>\<rparr>
   \<and> [-1, 0, 1, 2 :: real] ! 1 = 0
   \<and> [[[Some (7 / 2), Some (9 / 2), Some (11 / 2), Some (13 / 2 :: real)]]] ! 0 ! 0 ! 1 = Some (9 / 2)
   \<and> interp1d linear_externals (raw_times raw_ramp) (raw_data raw_ramp) ''linear''
       = Inr (\<lambda>j. linear_interp (raw_times raw_ramp) (raw_data raw_ramp ! j))
   \<and> linear_interp (raw_times raw_ramp) (raw_data raw_ramp ! 0) 5 = Some 5"
  by (simp add: Epochs_init_def Let_def linear_externals_def raw_ramp_def Epochs_times_def
        arange_def create_base_corr_func_def lower_def lower_char_def epoch_at_def upt_conv_Cons)

text \<open>
  With the window \<open>[-5/2, 5/2]\<close> the two ranges do not even have the same length, five
  grid samples against six samples of the interpolant, and the assignment of line 287
  raises.
\<close>

theorem epoch_shape_mismatch:
  "fst (Epochs_init linear_externals raw_ramp [\<lparr>onset = 5, duration = 0, label = 1\<rparr>]
          (Some [(''A'', 1)]) (-5 / 2) (5 / 2) (BaselineStr ''none'') 1 ''linear'' None CondNone raw_store)
     = Inl ValueError"
  by (simp add: Epochs_init_def Let_def linear_externals_def raw_ramp_def Epochs_times_def
        arange_def create_base_corr_func_def lower_def lower_char_def epoch_at_def upt_conv_Cons)

subsection \<open>An event array with no rows\<close>

text \<open>
  Claim C8, as the code has it. Nothing in \<open>Epochs.__init__\<close> looks at the number of
  events: on an event array with no rows the loop of line 286 does not run. For a step
  \<open>dt\<close> other than zero, when the smoothing, the interpolant and the baseline function
  are built, the constructor returns a collection with no events and a data tensor of
  shape \<open>[0, n_features, n_times]\<close>.
\<close>

theorem Epochs_init_no_events:
  assumes "dt \<noteq> 0"
    and "(case hamm of None \<Rightarrow> Inr (raw_data raw) | Some h \<Rightarrow> filtfilt_hamming ext h (raw_data raw)) = Inr x"
    and "interp1d ext (raw_times raw) x interp = Inr f"
    and "create_base_corr_func (Epochs_times tmin tmax dt) baseline = Inr bc"
  shows "\<exists>ep st'. Epochs_init ext raw [] event_id tmin tmax baseline dt interp hamm conds st = (Inr ep, st')
           \<and> ep_events ep = [] \<and> arr (ep_data ep) = []
           \<and> shape1 (ep_data ep) = length (raw_data raw)
           \<and> shape2 (ep_data ep) = length (Epochs_times tmin tmax dt)
           \<and> ep_times ep = Epochs_times tmin tmax dt"
  using assms by (simp add: Epochs_init_def Let_def)

text \<open>The ramp recording with the window \<open>[-2, 2]\<close>, \<open>dt = 1\<close> and the baseline \<open>(-2, 0)\<close>.\<close>

theorem Epochs_init_no_events_witness:
  "(1::real) \<noteq> 0
   \<and> interp1d linear_externals (raw_times raw_ramp) (raw_data raw_ramp) ''linear''
       = Inr (\<lambda>j. linear_interp (raw_times raw_ramp) (raw_data raw_ramp ! j))
   \<and> (\<exists>bc. create_base_corr_func (Epochs_times (-2) 2 1) (BaselineWin (Some (-2)) (Some 0)) = Inr bc)
   \<and> (\<exists>ep st'. Epochs_init linear_externals raw_ramp [] (Some [(''A'', 1)]) (-2) 2
                   (BaselineWin (Some (-2)) (Some 0)) 1 ''linear'' None CondNone raw_store = (Inr ep, st')
           \<and> ep_events ep = [] \<and> arr (ep_data ep) = []
           \<and> shape1 (ep_data ep) = 1 \<and> shape2 (ep_data ep) = 5)"
proof -
  have i: "interp1d linear_externals (raw_times raw_ramp) (raw_data raw_ramp) ''linear''
       = Inr (\<lambda>j. linear_interp (raw_times raw_ramp) (raw_data raw_ramp ! j))"
    by (simp add: linear_externals_def raw_ramp_def)
  obtain bc where b: "create_base_corr_func (Epochs_times (-2) 2 1) (BaselineWin (Some (-2)) (Some 0)) = Inr bc"
    by (simp add: create_base_corr_func_def Let_def)
  have n: "length (raw_data raw_ramp) = 1" "length (Epochs_times (-2) 2 1) = 5"
    by (simp_all add: raw_ramp_def Epochs_times_def arange_def)
  have h: "(case None of None \<Rightarrow> Inr (raw_data raw_ramp) | Some h \<Rightarrow> filtfilt_hamming linear_externals h (raw_data raw_ramp))
            = Inr (raw_data raw_ramp)"
    by simp
  show ?thesis
    using i b n Epochs_init_no_events [where dt = 1 and event_id = "Some [(''A'', 1)]" and conds = CondNone
        and st = raw_store, OF _ h i b]
    by auto
qed

text \<open>
  Claim C8 as it is stated fails there: the constructor returns, it raises nothing.
\<close>

theorem Epochs_init_empty_events_returns:
  "fst (Epochs_init linear_externals raw_ramp [] (Some [(''A'', 1)]) (-2) 2
          (BaselineWin (Some (-2)) (Some 0)) 1 ''linear'' None CondNone raw_store)
     = Inr \<lparr>ep_events = [], ep_event_id = [(''A'', 1)], ep_info = 2, ep_times = [-2, -1, 0, 1, 2],
            ep_data = \<lparr>shape1 = 1, shape2 = 5, arr = []\<rparr>\<rparr>"
  by (simp add: Epochs_init_def Let_def linear_externals_def raw_ramp_def Epochs_times_def
        arange_def create_base_corr_func_def upt_conv_Cons)

subsection \<open>Selection and the info dictionary of the source\<close>

text \<open>
  Claim C4 on run A, selecting the name \<open>X\<close> and the times from \<open>0\<close> to \<open>1\<close>. The
  result holds the info dictionary of the source, at the same address, and after the
  call that dictionary has \<open>tmin = 0\<close> where it had \<open>-1\<close> and \<open>condition = 'X'\<close> where
  it had \<open>None\<close>: the selection has modified the metadata of the source.
\<close>

theorem pick_writes_source_info:
  "ep_info run_a = 0
   \<and> store0 0 ''tmin'' = Some (PyFloat (-1))
   \<and> store0 0 ''condition'' = Some PyNone
   \<and> fst (pick run_a (EvKeys (Key ''X'')) None (TmPair 0 1) store0)
       = Inr \<lparr>ep_events = [\<lparr>onset = 10, duration = 0, label = 1\<rparr>],
              ep_event_id = [(''Cond/X'', 1)], ep_info = 0, ep_times = [0, 1],
              ep_data = \<lparr>shape1 = 1, shape2 = 2, arr = [[[Some 3, None]]]\<rparr>\<rparr>
   \<and> snd (pick run_a (EvKeys (Key ''X'')) None (TmPair 0 1) store0) 0 ''tmin'' = Some (PyFloat 0)
   \<and> snd (pick run_a (EvKeys (Key ''X'')) None (TmPair 0 1) store0) 0 ''condition'' = Some (PyStr ''X'')"
  by (simp add: pick_def pick_sel_event_def partial_match_event_def key_list_def getitem_def
        getitem_axis0_def getitem_axis1_def getitem_axis2_def prune_event_id_def
        pick_sel_time_def pick_sel_feature_def run_a_def cond_xy_def store0_def info0_def
        Let_def upt_conv_Cons)

subsection \<open>The invariants of a collection\<close>

lemma length_mask_take:
  "length bs = length xs \<Longrightarrow> length (filter fst (zip bs xs)) = length (filter (\<lambda>b. b) bs)"
proof (induction bs arbitrary: xs)
  case Nil
  then show ?case by simp
next
  case (Cons b bs)
  then show ?case by (cases xs) simp_all
qed

lemma length_index_take:
  "length xs = n \<Longrightarrow> index_valid n ix \<Longrightarrow> length (index_take n ix xs) = index_size n ix"
  by (cases ix) (simp_all add: length_mask_take)

lemma set_mask_take: "set (map snd (filter fst (zip bs xs))) \<subseteq> set xs"
  by (auto dest: set_zip_rightD)

lemma set_index_take:
  assumes "index_valid (length xs) ix"
  shows "set (index_take (length xs) ix xs) \<subseteq> set xs"
proof (cases ix)
  case SliceAll
  then show ?thesis by simp
next
  case (IntArray js)
  have "xs ! nat (if j < 0 then int (length xs) + j else j) \<in> set xs" if "j \<in> set js" for j
  proof -
    have "- int (length xs) \<le> j \<and> j < int (length xs)"
      using assms that IntArray by simp
    then have "nat (if j < 0 then int (length xs) + j else j) < length xs"
      by auto
    then show ?thesis by (rule nth_mem)
  qed
  then show ?thesis using IntArray by auto
next
  case (BoolArray bs)
  then show ?thesis using set_mask_take by simp
qed

lemma prune_keeps_labels:
  assumes "label ` set es \<subseteq> snd ` set d"
  shows "label ` set es \<subseteq> snd ` set (prune_event_id d es)"
  using assms by (force simp: prune_event_id_def)

lemma pick_inv:
  assumes inv: "epochs_inv self" and run: "pick self event feature time st = (Inr inst, st')"
  shows "epochs_inv inst"
proof -
  from run obtain sel d0 d1 where
    ev: "getitem (ep_events self) sel = Inr (ep_events inst)" and
    d0: "getitem_axis0 (ep_data self) sel = Inr d0" and
    d1: "getitem_axis1 d0 (pick_sel_feature feature) = Inr d1" and
    d2: "getitem_axis2 d1 (pick_sel_time self time) = Inr (ep_data inst)" and
    eid: "ep_event_id inst = prune_event_id (ep_event_id self) (ep_events inst)"
    by (auto simp: pick_def Let_def split: prod.splits sum.splits if_splits)
  have n: "length (arr (ep_data self)) = length (ep_events self)"
    using inv by (simp add: epochs_inv_def)
  have valid: "index_valid (length (ep_events self)) sel"
    and events': "ep_events inst = index_take (length (ep_events self)) sel (ep_events self)"
    using ev by (auto simp: getitem_def split: if_splits)
  have "length (arr (ep_data inst)) = length (arr d0)"
    using getitem_axis2_Inr(2) [OF d2] getitem_axis1_Inr(2) [OF d1] by simp
  also have "\<dots> = index_size (length (ep_events self)) sel"
    using getitem_axis0_Inr(2) [OF d0] n valid by (simp add: length_index_take)
  also have "\<dots> = length (ep_events inst)"
    using valid by (simp add: events' length_index_take)
  finally have count: "length (arr (ep_data inst)) = length (ep_events inst)" .
  have "set (ep_events inst) \<subseteq> set (ep_events self)"
    unfolding events' using valid by (rule set_index_take)
  then have "label ` set (ep_events inst) \<subseteq> snd ` set (ep_event_id self)"
    using inv by (auto simp: epochs_inv_def)
  then have "label ` set (ep_events inst) \<subseteq> snd ` set (ep_event_id inst)"
    unfolding eid by (rule prune_keeps_labels)
  then show ?thesis
    using count by (simp add: epochs_inv_def)
qed

lemma drop_events_inv:
  assumes inv: "epochs_inv self" and run: "drop_events self ids = Inr inst"
  shows "epochs_inv inst"
proof -
  have n: "length (arr (ep_data self)) = length (ep_events self)"
    using inv by (simp add: epochs_inv_def)
  define keep where "keep = {k. int k \<notin> (\<lambda>j. if j < 0 then int (length (ep_events self)) + j else j) ` set ids}"
  from run have rows: "arr (ep_data inst) = nths (arr (ep_data self)) keep"
    and events': "ep_events inst = nths (ep_events self) keep"
    and eid: "ep_event_id inst = prune_event_id (ep_event_id self) (ep_events inst)"
    by (auto simp: drop_events_def np_delete_def Let_def n keep_def split: sum.splits if_splits)
  have count: "length (arr (ep_data inst)) = length (ep_events inst)"
    by (simp add: rows events' length_nths n)
  have "set (ep_events inst) \<subseteq> set (ep_events self)"
    unfolding events' by (rule set_nths_subset)
  then have "label ` set (ep_events inst) \<subseteq> snd ` set (ep_event_id self)"
    using inv by (auto simp: epochs_inv_def)
  then have "label ` set (ep_events inst) \<subseteq> snd ` set (ep_event_id inst)"
    unfolding eid by (rule prune_keeps_labels)
  then show ?thesis
    using count by (simp add: epochs_inv_def)
qed

lemma fold_update_keys:
  "fst ` set (fold (\<lambda>(k, v). AList.update k v) kvs acc) = fst ` set kvs \<union> fst ` set acc"
proof (induction kvs arbitrary: acc)
  case Nil
  then show ?case by simp
next
  case (Cons kv kvs)
  obtain k v where kv: "kv = (k, v)" by (cases kv)
  have "fst ` set (fold (\<lambda>(k, v). AList.update k v) kvs (AList.update k v acc))
          = fst ` set kvs \<union> fst ` set (AList.update k v acc)"
    by (rule Cons.IH)
  also have "\<dots> = fst ` set kvs \<union> ({k} \<union> fst ` set acc)"
    by (simp only: AList.dom_update)
  finally show ?case by (simp add: kv Un_commute Un_left_commute insert_commute)
qed

lemma set_update_subset: "set (AList.update k v al) \<subseteq> insert (k, v) (set al)"
  by (induction al) auto

lemma fold_update_values:
  "set (fold (\<lambda>(k, v). AList.update k v) kvs acc) \<subseteq> set kvs \<union> set acc"
proof (induction kvs arbitrary: acc)
  case Nil
  then show ?case by simp
next
  case (Cons kv kvs)
  obtain k v where kv: "kv = (k, v)" by (cases kv)
  have "set (fold (\<lambda>(k, v). AList.update k v) kvs (AList.update k v acc))
          \<subseteq> set kvs \<union> set (AList.update k v acc)"
    by (rule Cons.IH)
  also have "\<dots> \<subseteq> set kvs \<union> insert (k, v) (set acc)"
    using set_update_subset [of k v acc] by auto
  finally show ?case by (auto simp: kv)
qed

lemma merge_event_id_labels:
  assumes "names_agree ds"
  shows "snd ` set (concat ds) \<subseteq> snd ` set (merge_event_id ds)"
proof
  fix l assume "l \<in> snd ` set (concat ds)"
  then obtain k where kl: "(k, l) \<in> set (concat ds)" by force
  then have "k \<in> fst ` set (merge_event_id ds)"
    unfolding merge_event_id_def fold_update_keys by force
  then obtain w where w: "(k, w) \<in> set (merge_event_id ds)" by auto
  then have "(k, w) \<in> set (concat ds)"
    using fold_update_values [of "concat ds" "[]"] by (auto simp: merge_event_id_def)
  then have "w = l"
    using assms kl by (auto simp: names_agree_def)
  then show "l \<in> snd ` set (merge_event_id ds)"
    using w by force
qed

lemma length_concat_eq:
  "\<forall>x\<in>set xs. length (f x) = length (g x) \<Longrightarrow> length (concat (map f xs)) = length (concat (map g xs))"
  by (induction xs) simp_all

lemma concatinate_epochs_inv:
  assumes inv: "\<forall>e\<in>set epochs_list. epochs_inv e"
    and agree: "names_agree (map ep_event_id epochs_list)"
    and run: "concatinate_epochs epochs_list = Inr joined"
  shows "epochs_inv joined"
proof -
  from run have rows: "arr (ep_data joined) = concat (map (\<lambda>e. arr (ep_data e)) epochs_list)"
    and events': "ep_events joined = concat (map ep_events epochs_list)"
    and eid: "ep_event_id joined = merge_event_id (map ep_event_id epochs_list)"
    by (auto simp: concatinate_epochs_def split: list.splits if_splits)
  have count: "length (arr (ep_data joined)) = length (ep_events joined)"
    unfolding rows events' using inv by (intro length_concat_eq) (simp add: epochs_inv_def)
  have "label ` set (ep_events joined) \<subseteq> snd ` set (concat (map ep_event_id epochs_list))"
    unfolding events' using inv by (fastforce simp: epochs_inv_def)
  also have "\<dots> \<subseteq> snd ` set (ep_event_id joined)"
    unfolding eid using agree by (rule merge_event_id_labels)
  finally show ?thesis
    using count by (simp add: epochs_inv_def)
qed

text \<open>
  Claim C9, with the condition that concatenation needs. A collection that \<open>pick\<close> or
  \<open>drop_events\<close> returns on a collection with the two invariants has them: one data
  row per event, and an entry in the dictionary for every label of the event array.
  So has the collection that \<open>concatinate_epochs\<close> returns on collections with the
  invariants, provided that their dictionaries agree: no name stands for two labels.
\<close>

theorem operations_preserve_invariants:
  "(epochs_inv self \<and> pick self event feature time st = (Inr picked, st') \<longrightarrow> epochs_inv picked)
   \<and> (epochs_inv self \<and> drop_events self ids = Inr dropped \<longrightarrow> epochs_inv dropped)
   \<and> ((\<forall>e\<in>set epochs_list. epochs_inv e) \<and> names_agree (map ep_event_id epochs_list)
        \<and> concatinate_epochs epochs_list = Inr joined \<longrightarrow> epochs_inv joined)"
  using pick_inv drop_events_inv concatinate_epochs_inv by blast

text \<open>Run A under \<open>pick('X')\<close> and \<open>drop_events([0])\<close>, and the runs A and B joined.\<close>

theorem operations_preserve_invariants_witness:
  "epochs_inv run_a
   \<and> fst (pick run_a (EvKeys (Key ''X'')) None TmNone store0) = Inr run_a_x
   \<and> epochs_inv run_a_x
   \<and> drop_events run_a [0] = Inr run_a_rest
   \<and> epochs_inv run_a_rest
   \<and> epochs_inv run_b
   \<and> names_agree [ep_event_id run_a, ep_event_id run_b]
   \<and> concatinate_epochs [run_a, run_b] = Inr run_ab
   \<and> epochs_inv run_ab"
proof -
  have a: "epochs_inv run_a" and b: "epochs_inv run_b"
    by (simp_all add: epochs_inv_def run_a_def run_b_def cond_xy_def)
  have "fst (pick run_a (EvKeys (Key ''X'')) None TmNone store0) = Inr run_a_x"
    by (simp add: pick_def pick_sel_event_def partial_match_event_def key_list_def getitem_def
        getitem_axis0_def getitem_axis1_def getitem_axis2_def prune_event_id_def
        pick_sel_time_def pick_sel_feature_def run_a_def run_a_x_def cond_xy_def store0_def
        Let_def upt_conv_Cons)
  then have p: "pick run_a (EvKeys (Key ''X'')) None TmNone store0
     = (Inr run_a_x, snd (pick run_a (EvKeys (Key ''X'')) None TmNone store0))"
    by (metis prod.collapse)
  have d: "drop_events run_a [0] = Inr run_a_rest"
    by (simp add: drop_events_def np_delete_def Let_def run_a_def run_a_rest_def cond_xy_def
        prune_event_id_def nths_Cons)
  have n: "names_agree [ep_event_id run_a, ep_event_id run_b]"
    by (auto simp: names_agree_def run_a_def run_b_def cond_xy_def)
  have c: "concatinate_epochs [run_a, run_b] = Inr run_ab"
    by (simp add: concatinate_epochs_def merge_event_id_def run_a_def run_b_def run_ab_def
        cond_xy_def)
  have all: "\<forall>e\<in>set [run_a, run_b]. epochs_inv e"
    using a b by simp
  have n': "names_agree (map ep_event_id [run_a, run_b])"
    using n by simp
  show ?thesis
    using a b p d n c all n'
      operations_preserve_invariants [of run_a "EvKeys (Key ''X'')" None TmNone store0 run_a_x
        "snd (pick run_a (EvKeys (Key ''X'')) None TmNone store0)" "[0]" run_a_rest
        "[run_a, run_b]" run_ab]
    by (metis fst_conv)
qed

text \<open>
  Claim C9 as it is stated fails for concatenation: the runs C and D have the
  invariants, but the name \<open>A\<close> is label \<open>1\<close> in one and \<open>2\<close> in the other. The
  dictionary comprehension of line 497 keeps the later label, and label \<open>1\<close> of the
  first event has no entry in the joined collection.
\<close>

theorem concatinate_epochs_loses_label:
  "epochs_inv run_c \<and> epochs_inv run_d
   \<and> concatinate_epochs [run_c, run_d] = Inr run_cd
   \<and> \<not> epochs_inv run_cd"
  by (simp add: epochs_inv_def concatinate_epochs_def merge_event_id_def run_c_def run_d_def
      run_cd_def)

subsection \<open>Dictionaries\<close>

lemma update_new: "k \<notin> fst ` set al \<Longrightarrow> AList.update k v al = al @ [(k, v)]"
  by (induction al) auto

lemma fold_update_fresh:
  "distinct (map fst d) \<Longrightarrow> fst ` set d \<inter> fst ` set acc = {} \<Longrightarrow>
   fold (\<lambda>(k, v). AList.update k v) d acc = acc @ d"
proof (induction d arbitrary: acc)
  case Nil
  then show ?case by simp
next
  case (Cons kv d)
  obtain k v where kv: "kv = (k, v)" by (cases kv)
  have fresh: "k \<notin> fst ` set acc"
    using Cons.prems(2) by (auto simp: kv)
  have "fold (\<lambda>(k, v). AList.update k v) d (acc @ [(k, v)]) = (acc @ [(k, v)]) @ d"
    using Cons.prems by (intro Cons.IH) (auto simp: kv)
  then show ?case
    by (simp add: kv update_new [OF fresh])
qed

lemma fold_update_same:
  "distinct (map fst d) \<Longrightarrow> set kvs \<subseteq> set d \<Longrightarrow> fold (\<lambda>(k, v). AList.update k v) kvs d = d"
proof (induction kvs)
  case Nil
  then show ?case by simp
next
  case (Cons kv kvs)
  obtain k v where kv: "kv = (k, v)" by (cases kv)
  have "map_of d k = Some v"
    using Cons.prems by (simp add: kv)
  then have "AList.update k v d = d"
    by (rule AList.update_triv)
  then show ?case
    using Cons by (simp add: kv)
qed

lemma merge_event_id_shared:
  assumes "distinct (map fst d)" "ds \<noteq> []" "\<forall>x\<in>set ds. x = d"
  shows "merge_event_id ds = d"
proof -
  obtain rest where ds: "ds = d # rest" using assms(2,3) by (cases ds) auto
  have sub: "set (concat rest) \<subseteq> set d" using assms(3) ds by auto
  have "merge_event_id ds = fold (\<lambda>(k, v). AList.update k v) (concat rest) (fold (\<lambda>(k, v). AList.update k v) d [])"
    by (simp add: merge_event_id_def ds)
  also have "fold (\<lambda>(k, v). AList.update k v) d [] = d"
    using fold_update_fresh [OF assms(1), of "[]"] by simp
  also have "fold (\<lambda>(k, v). AList.update k v) (concat rest) d = d"
    using assms(1) sub by (rule fold_update_same)
  finally show ?thesis .
qed

lemma map_of_fold_update:
  "map_of (fold (\<lambda>(k, v). AList.update k v) kvs acc) = map_of acc ++ map_of (rev kvs)"
proof (induction kvs arbitrary: acc)
  case Nil
  then show ?case by simp
next
  case (Cons kv kvs)
  obtain k v where kv: "kv = (k, v)" by (cases kv)
  have "map_of (fold (\<lambda>(k, v). AList.update k v) (kv # kvs) acc)
          = map_of (AList.update k v acc) ++ map_of (rev kvs)"
    by (simp add: kv Cons.IH)
  also have "\<dots> = (map_of acc ++ [k \<mapsto> v]) ++ map_of (rev kvs)"
    by (simp only: AList.update_conv' map_add_upd map_add_empty)
  also have "\<dots> = map_of acc ++ ([k \<mapsto> v] ++ map_of (rev kvs))"
    by (simp only: map_add_assoc)
  also have "[k \<mapsto> v] ++ map_of (rev kvs) = map_of (rev (kv # kvs))"
    by (simp add: kv)
  finally show ?case .
qed

lemma option_eqI: "(\<And>v. x = Some v \<longleftrightarrow> y = Some v) \<Longrightarrow> x = y"
  by (cases x; cases y) auto

lemma map_of_functional:
  assumes "distinct (map fst d)" "set kvs \<subseteq> set d"
  shows "map_of kvs k = Some v \<longleftrightarrow> (k, v) \<in> set kvs"
proof
  assume "map_of kvs k = Some v"
  then show "(k, v) \<in> set kvs" by (rule map_of_SomeD)
next
  assume in_kvs: "(k, v) \<in> set kvs"
  then obtain w where w: "map_of kvs k = Some w"
    by (metis weak_map_of_SomeI)
  then have "(k, w) \<in> set d" using assms(2) by (auto dest: map_of_SomeD)
  moreover have "(k, v) \<in> set d" using in_kvs assms(2) by auto
  ultimately have "w = v" using assms(1) by (metis map_of_is_SomeI option.inject)
  then show "map_of kvs k = Some v" using w by simp
qed

lemma merge_pruned:
  assumes "distinct (map fst d)"
  shows "map_of (merge_event_id (map (prune_event_id d) ess)) = map_of (prune_event_id d (concat ess))"
proof (rule ext)
  fix k
  let ?kvs = "rev (concat (map (prune_event_id d) ess))"
  have sub1: "set ?kvs \<subseteq> set d" by (auto simp: prune_event_id_def)
  have sub2: "set (prune_event_id d (concat ess)) \<subseteq> set d" by (auto simp: prune_event_id_def)
  have same: "set ?kvs = set (prune_event_id d (concat ess))"
    by (auto simp: prune_event_id_def)
  have "map_of ?kvs k = Some v \<longleftrightarrow> map_of (prune_event_id d (concat ess)) k = Some v" for v
    unfolding map_of_functional [OF assms sub1] map_of_functional [OF assms sub2] same ..
  then have "map_of ?kvs k = map_of (prune_event_id d (concat ess)) k"
    by (rule option_eqI)
  then show "map_of (merge_event_id (map (prune_event_id d) ess)) k = map_of (prune_event_id d (concat ess)) k"
    by (simp add: merge_event_id_def map_of_fold_update)
qed

subsection \<open>Selection by name, as a function\<close>

lemma partial_match_event_Inr:
  assumes "key_list ks \<noteq> []"
  shows "partial_match_event self ks
           = Inr (map (event_selected (ep_event_id self) (key_list ks)) (ep_events self))"
proof -
  obtain m where m: "partial_match_event self ks = Inr m"
    using assms by (simp add: partial_match_event_def Let_def)
  then show ?thesis
    using partial_match_event_mask [OF m] by simp
qed

lemma pick_after_sel_event:
  assumes sel: "pick_sel_event self event st = (Inr sel, st1)"
    and ev: "getitem (ep_events self) sel = Inr (filter (selected event (ep_event_id self)) (ep_events self))"
    and rows: "getitem_axis0 (ep_data self) sel
      = Inr ((ep_data self)\<lparr>arr := map fst (filter (\<lambda>(row, e). selected event (ep_event_id self) e)
                                       (zip (arr (ep_data self)) (ep_events self)))\<rparr>)"
    and ne: "event \<noteq> EvKeys (Keys [])"
  shows "fst (pick self event feature time st)
           = (if pick_raises self event feature time then Inl IndexError
              else Inr (pick_result self event feature time))"
proof -
  have tm: "getitem (ep_times self) (pick_sel_time self time)
      = (if index_valid (length (ep_times self)) (pick_sel_time self time)
         then Inr (index_take (length (ep_times self)) (pick_sel_time self time) (ep_times self))
         else Inl IndexError)"
    by (simp add: getitem_def)
  show ?thesis
    using ne
    by (simp add: pick_def sel ev rows tm Let_def getitem_axis1_def getitem_axis2_def
        pick_raises_def pick_result_def)
qed

lemma pick_labels:
  assumes label: "event = EvNone \<or> (\<exists>ks. event = EvKeys ks)"
    and count: "length (arr (ep_data self)) = length (ep_events self)"
  shows "fst (pick self event feature time st)
           = (if pick_raises self event feature time then Inl IndexError
              else Inr (pick_result self event feature time))"
proof (cases event)
  case EvNone
  have sel: "pick_sel_event self event st = (Inr SliceAll, st)"
    by (simp add: pick_sel_event_def EvNone)
  have ev: "getitem (ep_events self) SliceAll = Inr (filter (selected event (ep_event_id self)) (ep_events self))"
    by (simp add: getitem_def selected_def EvNone)
  have "map fst (zip (arr (ep_data self)) (ep_events self)) = arr (ep_data self)"
    using count by simp
  then have rows: "getitem_axis0 (ep_data self) SliceAll
      = Inr ((ep_data self)\<lparr>arr := map fst (filter (\<lambda>(row, e). selected event (ep_event_id self) e)
                                       (zip (arr (ep_data self)) (ep_events self)))\<rparr>)"
    by (simp add: getitem_axis0_def selected_def EvNone)
  show ?thesis
    using pick_after_sel_event [OF sel ev rows] EvNone by simp
next
  case (EvKeys ks)
  show ?thesis
  proof (cases "key_list ks = []")
    case True
    then have "ks = Keys []" by (cases ks) (simp_all add: key_list_def)
    then show ?thesis
      by (simp add: EvKeys pick_def pick_sel_event_def pick_raises_def)
  next
    case False
    let ?P = "event_selected (ep_event_id self) (key_list ks)"
    have P: "selected event (ep_event_id self) = ?P"
      by (simp add: selected_def EvKeys)
    obtain st1 where sel: "pick_sel_event self event st = (Inr (BoolArray (map ?P (ep_events self))), st1)"
      using False
      by (cases ks) (simp_all add: EvKeys pick_sel_event_def partial_match_event_Inr key_list_def)
    have ev: "getitem (ep_events self) (BoolArray (map ?P (ep_events self)))
                = Inr (filter (selected event (ep_event_id self)) (ep_events self))"
      by (simp add: P getitem_mask)
    have rows: "getitem_axis0 (ep_data self) (BoolArray (map ?P (ep_events self)))
      = Inr ((ep_data self)\<lparr>arr := map fst (filter (\<lambda>(row, e). selected event (ep_event_id self) e)
                                       (zip (arr (ep_data self)) (ep_events self)))\<rparr>)"
      using count by (simp add: P getitem_axis0_def mask_rows)
    have ne: "event \<noteq> EvKeys (Keys [])"
      using False by (auto simp: EvKeys key_list_def)
    show ?thesis
      using pick_after_sel_event [OF sel ev rows ne] .
  qed
next
  case (EvIndex ix)
  then show ?thesis using label by simp
qed

lemma pick_each_labels:
  assumes label: "event = EvNone \<or> (\<exists>ks. event = EvKeys ks)"
    and count: "\<forall>e\<in>set epochs_list. length (arr (ep_data e)) = length (ep_events e)"
  shows "fst (pick_each epochs_list event feature time st)
           = (if \<exists>e\<in>set epochs_list. pick_raises e event feature time then Inl IndexError
              else Inr (map (\<lambda>e. pick_result e event feature time) epochs_list))"
  using count
proof (induction epochs_list arbitrary: st)
  case Nil
  then show ?case by simp
next
  case (Cons e rest)
  obtain r st1 where run: "pick e event feature time st = (r, st1)"
    by (cases "pick e event feature time st")
  have r: "r = (if pick_raises e event feature time then Inl IndexError
                else Inr (pick_result e event feature time))"
    using pick_labels [OF label, of e feature time st] Cons.prems run by simp
  obtain r' st2 where rest: "pick_each rest event feature time st1 = (r', st2)"
    by (cases "pick_each rest event feature time st1")
  have r': "r' = (if \<exists>e\<in>set rest. pick_raises e event feature time then Inl IndexError
              else Inr (map (\<lambda>e. pick_result e event feature time) rest))"
    using Cons.IH [of st1] Cons.prems rest by simp
  show ?case
    by (simp add: run rest r r')
qed

subsection \<open>Concatenation and selection\<close>

lemma zip_concat:
  "\<forall>e\<in>set xs. length (f e) = length (g e) \<Longrightarrow>
   zip (concat (map f xs)) (concat (map g xs)) = concat (map (\<lambda>e. zip (f e) (g e)) xs)"
  by (induction xs) simp_all

lemma concatinate_epochs_Inr:
  assumes "concatinate_epochs epochs_list = Inr joined"
  shows "ep_events joined = concat (map ep_events epochs_list)"
    "arr (ep_data joined) = concat (map (\<lambda>e. arr (ep_data e)) epochs_list)"
    "shape1 (ep_data joined) = shape1 (ep_data (hd epochs_list))"
    "shape2 (ep_data joined) = shape2 (ep_data (hd epochs_list))"
    "ep_event_id joined = merge_event_id (map ep_event_id epochs_list)"
    "ep_times joined = ep_times (hd epochs_list)"
    "ep_info joined = ep_info (hd epochs_list)"
  using assms by (auto simp: concatinate_epochs_def split: list.splits if_splits)

lemma concatinate_epochs_returns:
  assumes "epochs_list \<noteq> []"
    and "\<forall>e\<in>set epochs_list. shape1 (ep_data e) = nf \<and> shape2 (ep_data e) = nt"
  shows "\<exists>joined. concatinate_epochs epochs_list = Inr joined"
  using assms by (cases epochs_list) (simp_all add: concatinate_epochs_def)

lemma pick_raises_shared:
  assumes "ep_times a = ep_times b" "shape1 (ep_data a) = shape1 (ep_data b)"
    "shape2 (ep_data a) = shape2 (ep_data b)"
  shows "pick_raises a event feature time \<longleftrightarrow> pick_raises b event feature time"
  using assms by (simp add: pick_raises_def pick_sel_time_def)

text \<open>
  Claim C6, for a selection of events by name, or of all events, with any selection of
  features and times. The runs share the dictionary of labels (a dictionary has no name
  twice) and the grid, have the same numbers of features and of times, and one data row
  per event. Then concatenating and selecting, and selecting in each run and
  concatenating, raise the same exception or return the same collection: the same data
  tensor, events, times and info dictionary, and the same labels under the same names.
\<close>

theorem concat_then_pick_by_label:
  assumes shared: "\<forall>e\<in>set epochs_list.
        ep_event_id e = d \<and> ep_times e = ts \<and> shape1 (ep_data e) = nf \<and> shape2 (ep_data e) = nt
        \<and> length (arr (ep_data e)) = length (ep_events e)"
    and dict: "distinct (map fst d)"
    and label: "event = EvNone \<or> (\<exists>ks. event = EvKeys ks)"
  shows "(\<exists>x. concat_then_pick epochs_list event feature time st = Inl x
            \<and> pick_then_concat epochs_list event feature time st' = Inl x)
       \<or> (\<exists>a b. concat_then_pick epochs_list event feature time st = Inr a
              \<and> pick_then_concat epochs_list event feature time st' = Inr b
              \<and> same_collection a b)"
proof (cases epochs_list)
  case Nil
  then show ?thesis
    by (simp add: concat_then_pick_def pick_then_concat_def concatinate_epochs_def)
next
  case (Cons e0 rest)
  then have ne: "epochs_list \<noteq> []" and hd: "hd epochs_list = e0" and e0: "e0 \<in> set epochs_list"
    by simp_all
  have count: "\<forall>e\<in>set epochs_list. length (arr (ep_data e)) = length (ep_events e)"
    using shared by simp
  obtain joined where joined: "concatinate_epochs epochs_list = Inr joined"
    using concatinate_epochs_returns [OF ne, of nf nt] shared by auto
  note j = concatinate_epochs_Inr [OF joined]
  have j_id: "ep_event_id joined = d"
    unfolding j(5) using dict ne shared by (intro merge_event_id_shared) auto
  have j_times: "ep_times joined = ts" and j_nf: "shape1 (ep_data joined) = nf"
    and j_nt: "shape2 (ep_data joined) = nt"
    using j(3,4,6) shared e0 hd by simp_all
  have j_count: "length (arr (ep_data joined)) = length (ep_events joined)"
    unfolding j(1,2) using count by (intro length_concat_eq) simp
  have lhs: "concat_then_pick epochs_list event feature time st
      = (if pick_raises joined event feature time then Inl IndexError
         else Inr (pick_result joined event feature time))"
    using pick_labels [OF label j_count] by (simp add: concat_then_pick_def joined)
  have raises: "pick_raises e event feature time \<longleftrightarrow> pick_raises joined event feature time"
    if "e \<in> set epochs_list" for e
    using that shared j_times j_nf j_nt by (intro pick_raises_shared) simp_all
  show ?thesis
  proof (cases "pick_raises joined event feature time")
    case True
    then have "\<exists>e\<in>set epochs_list. pick_raises e event feature time"
      using raises e0 by blast
    then have "pick_then_concat epochs_list event feature time st' = Inl IndexError"
      by (simp add: pick_then_concat_def pick_each_labels [OF label count])
    then show ?thesis
      using True lhs by simp
  next
    case False
    let ?picked = "map (\<lambda>e. pick_result e event feature time) epochs_list"
    have "\<not> (\<exists>e\<in>set epochs_list. pick_raises e event feature time)"
      using False raises by blast
    then have rhs: "pick_then_concat epochs_list event feature time st' = concatinate_epochs ?picked"
      by (simp add: pick_then_concat_def pick_each_labels [OF label count])
    have same_times: "ep_times e = ep_times joined" if "e \<in> set epochs_list" for e
      using that shared j_times by simp
    have sel_time: "pick_sel_time e time = pick_sel_time joined time" if "e \<in> set epochs_list" for e
      using same_times [OF that] by (simp add: pick_sel_time_def)
    have "\<forall>e\<in>set ?picked. shape1 (ep_data e) = index_size nf (pick_sel_feature feature)
            \<and> shape2 (ep_data e) = index_size nt (pick_sel_time joined time)"
      using shared sel_time by (auto simp: pick_result_def Let_def)
    then obtain b where b: "concatinate_epochs ?picked = Inr b"
      using concatinate_epochs_returns [of ?picked] ne by blast
    note p = concatinate_epochs_Inr [OF b]
    let ?a = "pick_result joined event feature time"
    let ?P = "selected event d"
    have hd_picked: "hd ?picked = pick_result e0 event feature time"
      by (simp add: Cons)
    have events: "ep_events ?a = ep_events b"
      unfolding p(1) using shared
      by (simp add: pick_result_def Let_def j(1) j_id filter_concat comp_def cong: map_cong)
    have zipped: "zip (arr (ep_data joined)) (ep_events joined)
        = concat (map (\<lambda>e. zip (arr (ep_data e)) (ep_events e)) epochs_list)"
      unfolding j(1,2) using count by (rule zip_concat)
    have rows: "arr (ep_data ?a) = arr (ep_data b)"
      unfolding p(2) using shared sel_time
      by (simp add: pick_result_def Let_def zipped j_id j_nf j_nt filter_concat map_concat comp_def
          cong: map_cong)
    have shapes: "shape1 (ep_data ?a) = shape1 (ep_data b)" "shape2 (ep_data ?a) = shape2 (ep_data b)"
      unfolding p(3,4) hd_picked using shared e0 sel_time [OF e0]
      by (simp_all add: pick_result_def Let_def j_nf j_nt)
    have data: "ep_data ?a = ep_data b"
      using rows shapes by (intro ndarray3.equality) simp_all
    have times': "ep_times ?a = ep_times b"
      unfolding p(6) hd_picked using shared e0 sel_time [OF e0]
      by (simp add: pick_result_def Let_def j_times)
    have info': "ep_info ?a = ep_info b"
      unfolding p(7) hd_picked by (simp add: pick_result_def Let_def j(7) hd)
    have "map ep_event_id ?picked = map (prune_event_id d) (map (\<lambda>e. filter ?P (ep_events e)) epochs_list)"
      using shared by (simp add: pick_result_def Let_def)
    then have "ep_event_id b
        = merge_event_id (map (prune_event_id d) (map (\<lambda>e. filter ?P (ep_events e)) epochs_list))"
      unfolding p(5) by (rule arg_cong)
    then have "map_of (ep_event_id b)
        = map_of (prune_event_id d (concat (map (\<lambda>e. filter ?P (ep_events e)) epochs_list)))"
      by (simp only: merge_pruned [OF dict])
    also have "\<dots> = map_of (ep_event_id ?a)"
      by (simp add: pick_result_def Let_def j(1) j_id filter_concat comp_def)
    finally have ids: "map_of (ep_event_id ?a) = map_of (ep_event_id b)" by simp
    have "same_collection ?a b"
      using data events times' info' ids by (simp add: same_collection_def)
    then show ?thesis
      using False lhs rhs b by simp
  qed
qed

text \<open>The runs A and B and the name \<open>X\<close>: the events at \<open>10\<close> and \<open>35\<close>, either way.\<close>

theorem concat_then_pick_by_label_witness:
  "distinct (map fst cond_xy)
   \<and> concat_then_pick [run_a, run_b] (EvKeys (Key ''X'')) None TmNone store0 = Inr run_ab_x
   \<and> pick_then_concat [run_a, run_b] (EvKeys (Key ''X'')) None TmNone store0 = Inr run_ab_x
   \<and> (\<exists>b. pick_then_concat [run_a, run_b] (EvKeys (Key ''X'')) None TmNone store0 = Inr b
          \<and> same_collection run_ab_x b)"
proof -
  have shared: "\<forall>e\<in>set [run_a, run_b].
        ep_event_id e = cond_xy \<and> ep_times e = [-1, 0, 1] \<and> shape1 (ep_data e) = 1
        \<and> shape2 (ep_data e) = 3 \<and> length (arr (ep_data e)) = length (ep_events e)"
    by (simp add: run_a_def run_b_def)
  have dict: "distinct (map fst cond_xy)"
    by (simp add: cond_xy_def)
  have label: "EvKeys (Key ''X'') = EvNone \<or> (\<exists>ks. EvKeys (Key ''X'') = EvKeys ks)"
    by simp
  have lhs: "concat_then_pick [run_a, run_b] (EvKeys (Key ''X'')) None TmNone store0 = Inr run_ab_x"
    by (simp add: concat_then_pick_def concatinate_epochs_def merge_event_id_def
        pick_def pick_sel_event_def partial_match_event_def key_list_def getitem_def
        getitem_axis0_def getitem_axis1_def getitem_axis2_def prune_event_id_def
        pick_sel_time_def pick_sel_feature_def run_a_def run_b_def run_ab_x_def cond_xy_def
        store0_def Let_def upt_conv_Cons)
  have rhs: "pick_then_concat [run_a, run_b] (EvKeys (Key ''X'')) None TmNone store0 = Inr run_ab_x"
    by (simp add: pick_then_concat_def concatinate_epochs_def merge_event_id_def
        pick_def pick_sel_event_def partial_match_event_def key_list_def getitem_def
        getitem_axis0_def getitem_axis1_def getitem_axis2_def prune_event_id_def
        pick_sel_time_def pick_sel_feature_def run_a_def run_b_def run_ab_x_def cond_xy_def
        store0_def Let_def upt_conv_Cons)
  show ?thesis
    using dict lhs rhs
      concat_then_pick_by_label [OF shared dict label, of None TmNone store0 store0]
    by auto
qed

text \<open>
  Claim C6 as it is stated, for every selection, fails for a selection of events by
  position. With the index \<open>[0]\<close> on the runs A and B, concatenating and selecting gives
  the first event of run A alone; selecting in each run and concatenating gives the
  first event of run A and the first event of run B.
\<close>

theorem concat_then_pick_by_index_differs:
  "ep_event_id run_a = ep_event_id run_b \<and> ep_times run_a = ep_times run_b
   \<and> concat_then_pick [run_a, run_b] (EvIndex (IntArray [0])) None TmNone store0 = Inr run_ab_first
   \<and> pick_then_concat [run_a, run_b] (EvIndex (IntArray [0])) None TmNone store0 = Inr run_ab_firsts
   \<and> ep_events run_ab_first \<noteq> ep_events run_ab_firsts
   \<and> ep_data run_ab_first \<noteq> ep_data run_ab_firsts"
  by (simp add: concat_then_pick_def pick_then_concat_def concatinate_epochs_def merge_event_id_def
        pick_def pick_sel_event_def getitem_def
        getitem_axis0_def getitem_axis1_def getitem_axis2_def prune_event_id_def
        pick_sel_time_def pick_sel_feature_def run_a_def run_b_def run_ab_first_def
        run_ab_firsts_def cond_xy_def store0_def Let_def)

subsection \<open>Timing files of different lengths\<close>

lemma read_lines_first_file:
  assumes "well_formed float lines" "length t = rid" "length e = rid"
  shows "\<exists>t' e'. read_lines float 0 rid lines t e = Inr (t', e')
           \<and> length t' = rid + length lines \<and> length e' = rid + length lines"
  using assms
proof (induction lines arbitrary: rid t e)
  case Nil
  then show ?case by simp
next
  case (Cons l ls)
  have l: "strip l \<noteq> []"
    and parse: "startswith_star (strip l) \<or> those (map float (split_ws (strip l))) \<noteq> None"
    and ls: "well_formed float ls"
    using Cons.prems(1) by (simp_all add: well_formed_def)
  show ?case
  proof (cases "startswith_star (strip l)")
    case True
    have "\<exists>t' e'. read_lines float 0 (Suc rid) ls (t @ [[]]) (e @ [[]]) = Inr (t', e')
           \<and> length t' = Suc rid + length ls \<and> length e' = Suc rid + length ls"
      using Cons.prems by (intro Cons.IH [OF ls]) simp_all
    then show ?thesis
      using l True by (simp add: Let_def)
  next
    case False
    then obtain t_run where t_run: "those (map float (split_ws (strip l))) = Some t_run"
      using parse by auto
    have "\<exists>t' e'. read_lines float 0 (Suc rid) ls
                     ((t @ [[]])[rid := (t @ [[]]) ! rid @ t_run])
                     ((e @ [[]])[rid := (e @ [[]]) ! rid @ replicate (length t_run) (int 0 + 1)])
                   = Inr (t', e')
           \<and> length t' = Suc rid + length ls \<and> length e' = Suc rid + length ls"
      using Cons.prems by (intro Cons.IH [OF ls]) simp_all
    then show ?thesis
      using l False t_run Cons.prems by (simp add: Let_def)
  qed
qed

lemma read_lines_later_file:
  assumes "eid \<noteq> 0" "well_formed float lines" "length t = n" "length e = n"
  shows "if \<exists>i<length lines. n \<le> rid + i \<and> \<not> startswith_star (strip (lines ! i))
         then read_lines float eid rid lines t e = Inl IndexError
         else \<exists>t' e'. read_lines float eid rid lines t e = Inr (t', e') \<and> length t' = n \<and> length e' = n"
  using assms(2-)
proof (induction lines arbitrary: rid t e)
  case Nil
  then show ?case by simp
next
  case (Cons l ls)
  have l: "strip l \<noteq> []"
    and parse: "startswith_star (strip l) \<or> those (map float (split_ws (strip l))) \<noteq> None"
    and ls: "well_formed float ls"
    using Cons.prems(1) by (simp_all add: well_formed_def)
  have split: "(\<exists>i<length (l # ls). n \<le> rid + i \<and> \<not> startswith_star (strip ((l # ls) ! i)))
      \<longleftrightarrow> (n \<le> rid \<and> \<not> startswith_star (strip l))
          \<or> (\<exists>i<length ls. n \<le> Suc rid + i \<and> \<not> startswith_star (strip (ls ! i)))"
    by (simp add: Ex_less_Suc2)
  show ?case
  proof (cases "startswith_star (strip l)")
    case True
    have step: "read_lines float eid rid (l # ls) t e = read_lines float eid (Suc rid) ls t e"
      using l True assms(1) by (simp add: Let_def)
    show ?thesis
      unfolding split step using True Cons.IH [OF ls Cons.prems(2,3), of "Suc rid"] by simp
  next
    case False
    then obtain t_run where t_run: "those (map float (split_ws (strip l))) = Some t_run"
      using parse by auto
    show ?thesis
    proof (cases "rid < n")
      case True
      have step: "read_lines float eid rid (l # ls) t e
          = read_lines float eid (Suc rid) ls (t[rid := t ! rid @ t_run])
              (e[rid := e ! rid @ replicate (length t_run) (int eid + 1)])"
        using l False t_run True assms(1) Cons.prems by (simp add: Let_def)
      have "if \<exists>i<length ls. n \<le> Suc rid + i \<and> \<not> startswith_star (strip (ls ! i))
         then read_lines float eid (Suc rid) ls (t[rid := t ! rid @ t_run])
              (e[rid := e ! rid @ replicate (length t_run) (int eid + 1)]) = Inl IndexError
         else \<exists>t' e'. read_lines float eid (Suc rid) ls (t[rid := t ! rid @ t_run])
              (e[rid := e ! rid @ replicate (length t_run) (int eid + 1)]) = Inr (t', e')
                \<and> length t' = n \<and> length e' = n"
        using Cons.prems by (intro Cons.IH [OF ls]) simp_all
      then show ?thesis
        unfolding split step using True by simp
    next
      case past: False
      have "read_lines float eid rid (l # ls) t e = Inl IndexError"
        using l False t_run past assms(1) Cons.prems by (simp add: Let_def)
      then show ?thesis
        unfolding split using past False by simp
    qed
  qed
qed

lemma read_files_later_files:
  assumes "eid \<noteq> 0" "list_all (\<lambda>(ev, lines). well_formed float lines) fs" "length t = n" "length e = n"
  shows "if list_ex (\<lambda>(ev, lines). overruns n lines) fs
         then read_files float eid fs t e d = Inl IndexError
         else \<exists>t' e' d'. read_files float eid fs t e d = Inr (t', e', d') \<and> length t' = n"
  using assms
proof (induction fs arbitrary: eid t e d)
  case Nil
  then show ?case by simp
next
  case (Cons f fs)
  obtain ev lines where f: "f = (ev, lines)" by (cases f)
  have wf: "well_formed float lines" and rest: "list_all (\<lambda>(ev, lines). well_formed float lines) fs"
    using Cons.prems(2) by (simp_all add: f)
  have this_file: "if overruns n lines then read_lines float eid 0 lines t e = Inl IndexError
      else \<exists>t' e'. read_lines float eid 0 lines t e = Inr (t', e') \<and> length t' = n \<and> length e' = n"
    using read_lines_later_file [OF Cons.prems(1) wf Cons.prems(3,4), of 0]
    by (simp add: overruns_def)
  show ?case
  proof (cases "overruns n lines")
    case True
    then have "read_lines float eid 0 lines t e = Inl IndexError"
      using this_file by simp
    then show ?thesis
      using True by (simp add: f)
  next
    case False
    then obtain t' e' where run: "read_lines float eid 0 lines t e = Inr (t', e')"
      and len: "length t' = n" "length e' = n"
      using this_file by auto
    have "if list_ex (\<lambda>(ev, lines). overruns n lines) fs
         then read_files float (Suc eid) fs t' e' (AList.update ev (int eid + 1) d) = Inl IndexError
         else \<exists>t'' e'' d'. read_files float (Suc eid) fs t' e' (AList.update ev (int eid + 1) d)
                  = Inr (t'', e'', d') \<and> length t'' = n"
      using rest len by (intro Cons.IH) simp_all
    then show ?thesis
      using False by (cases "list_ex (\<lambda>(ev, lines). overruns n lines) fs") (simp_all add: f run)
  qed
qed

text \<open>
  Claim C7, as the code has it. \<open>read_events\<close> never compares the numbers of runs of the
  files. On files whose lines are all well formed, it raises exactly when a file after
  the first has a line of timings at a line number that the first file does not reach,
  and what it raises is the \<open>IndexError\<close> of \<open>t[rid]\<close>. Otherwise it returns, also when a
  later file is shorter than the first or ends in \<open>*\<close> lines past it, and the number of
  event arrays is the number of lines of the first file.
\<close>

theorem read_events_run_counts:
  assumes "list_all (\<lambda>(ev, lines). well_formed float lines) (first # rest)"
  shows "if list_ex (\<lambda>(ev, lines). overruns (length (snd first)) lines) rest
         then read_events float (first # rest) = Inl IndexError
         else \<exists>events event_id. read_events float (first # rest) = Inr (events, event_id)
                \<and> length events = length (snd first)"
proof -
  obtain ev lines where first: "first = (ev, lines)" by (cases first)
  have wf: "well_formed float lines" and rest: "list_all (\<lambda>(ev, lines). well_formed float lines) rest"
    using assms by (simp_all add: first)
  obtain t e where run: "read_lines float 0 0 lines [] [] = Inr (t, e)"
    and len: "length t = length lines" "length e = length lines"
    using read_lines_first_file [OF wf, of "[]" 0 "[]"] by auto
  have later: "if list_ex (\<lambda>(ev, lines'). overruns (length lines) lines') rest
         then read_files float (Suc 0) rest t e (AList.update ev (int 0 + 1) []) = Inl IndexError
         else \<exists>t' e' d'. read_files float (Suc 0) rest t e (AList.update ev (int 0 + 1) [])
                  = Inr (t', e', d') \<and> length t' = length lines"
    using rest len by (intro read_files_later_files) simp_all
  show ?thesis
  proof (cases "list_ex (\<lambda>(ev, lines'). overruns (length lines) lines') rest")
    case True
    then show ?thesis
      using later by (simp add: read_events_def first run)
  next
    case False
    then obtain t' e' d' where
      "read_files float (Suc 0) rest t e (AList.update ev (int 0 + 1) []) = Inr (t', e', d')"
      "length t' = length lines"
      using later by auto
    then show ?thesis
      using False by (simp add: read_events_def first run)
  qed
qed

text \<open>
  The file \<open>A\<close> with two runs, beside a file \<open>B\<close> with one run, and beside a file \<open>B\<close>
  with three.
\<close>

theorem read_events_run_counts_witness:
  "well_formed float_of_digits [''1'', ''2'']
   \<and> well_formed float_of_digits [''3'']
   \<and> \<not> overruns 2 [''3'']
   \<and> read_events float_of_digits [(''A'', [''1'', ''2'']), (''B'', [''3''])]
       = Inr ([[\<lparr>onset = 1, duration = 0, label = 1\<rparr>, \<lparr>onset = 3, duration = 0, label = 2\<rparr>],
               [\<lparr>onset = 2, duration = 0, label = 1\<rparr>]],
              [(''A'', 1), (''B'', 2)])
   \<and> well_formed float_of_digits [''3'', ''*'', ''4'']
   \<and> overruns 2 [''3'', ''*'', ''4'']
   \<and> read_events float_of_digits [(''A'', [''1'', ''2'']), (''B'', [''3'', ''*'', ''4''])] = Inl IndexError"
proof -
  have wf: "well_formed float_of_digits [''1'', ''2'']" "well_formed float_of_digits [''3'']"
    "well_formed float_of_digits [''3'', ''*'', ''4'']"
    by (simp_all add: well_formed_def strip_def is_space_def split_ws_def startswith_star_def
        float_of_digits_def digit_of_def)
  have o: "\<not> overruns 2 [''3'']" "overruns 2 [''3'', ''*'', ''4'']"
    by (simp_all add: overruns_def strip_def is_space_def startswith_star_def Ex_less_Suc2
        numeral_3_eq_3)
  have short: "list_all (\<lambda>(ev, lines). well_formed float_of_digits lines)
                 ((''A'', [''1'', ''2'']) # [(''B'', [''3''])])"
    and long: "list_all (\<lambda>(ev, lines). well_formed float_of_digits lines)
                 ((''A'', [''1'', ''2'']) # [(''B'', [''3'', ''*'', ''4''])])"
    using wf by simp_all
  have res: "read_events float_of_digits [(''A'', [''1'', ''2'']), (''B'', [''3''])]
       = Inr ([[\<lparr>onset = 1, duration = 0, label = 1\<rparr>, \<lparr>onset = 3, duration = 0, label = 2\<rparr>],
               [\<lparr>onset = 2, duration = 0, label = 1\<rparr>]],
              [(''A'', 1), (''B'', 2)])"
    by (simp add: read_events_def strip_def is_space_def split_ws_def startswith_star_def
        float_of_digits_def digit_of_def upt_conv_Cons)
  show ?thesis
    using wf o res read_events_run_counts [OF short] read_events_run_counts [OF long]
    by (simp add: numeral_2_eq_2)
qed

text \<open>
  Claim C7 as it is stated fails when the second file describes fewer runs than the
  first: \<open>A\<close> has two lines and \<open>B\<close> has one, and \<open>read_events\<close> returns two event arrays,
  the second without an event of \<open>B\<close>.
\<close>

theorem read_events_fewer_runs_returns:
  "length (filter (\<lambda>l. strip l \<noteq> []) [''1'', ''2'']) \<noteq> length (filter (\<lambda>l. strip l \<noteq> []) [''3''])
   \<and> read_events float_of_digits [(''A'', [''1'', ''2'']), (''B'', [''3''])]
       = Inr ([[\<lparr>onset = 1, duration = 0, label = 1\<rparr>, \<lparr>onset = 3, duration = 0, label = 2\<rparr>],
               [\<lparr>onset = 2, duration = 0, label = 1\<rparr>]],
              [(''A'', 1), (''B'', 2)])"
  by (simp add: read_events_def strip_def is_space_def split_ws_def startswith_star_def
        float_of_digits_def digit_of_def upt_conv_Cons)

end
